theory Spec2Isabelle
  imports Main
begin

section \<open>Python values and the operations the code applies to them\<close>

text \<open>
  A parsed JSON document, as \<^verbatim>\<open>json.loads\<close> returns it, and equally the dictionaries
  the code builds and the result envelope the search service answers with. A
  \<^verbatim>\<open>dict\<close> is an association list read from the left. Strings are lists of
  characters, one \<open>char\<close> per character of the Python \<^verbatim>\<open>str\<close>.
  A float is kept as mantissa and binary exponent (or one of the three special
  values); the code never computes with one, it only tests its truth value.
\<close>

datatype pyfloat = Finite int int | NaN | PosInf | NegInf

datatype json =
    JNull
  | JBool bool
  | JInt int
  | JFloat pyfloat
  | JStr string
  | JArr "json list"
  | JObj "(string \<times> json) list"

text \<open>The exceptions (all subclasses of \<^verbatim>\<open>Exception\<close>) that the modelled code can meet.\<close>

datatype error =
    OSError
  | BadZipFile
  | JSONDecodeError
  | AttributeError
  | KeyError
  | TypeError
  | TransportError

definition bind_err :: "error + 'a \<Rightarrow> ('a \<Rightarrow> error + 'b) \<Rightarrow> error + 'b" where
  "bind_err m f = (case m of Inl e \<Rightarrow> Inl e | Inr x \<Rightarrow> f x)"

text \<open>Python's truth value of an object: what \<^verbatim>\<open>or\<close> and \<^verbatim>\<open>not\<close> test.\<close>

fun truthy :: "json \<Rightarrow> bool" where
  "truthy JNull = False"
| "truthy (JBool b) = b"
| "truthy (JInt n) = (n \<noteq> 0)"
| "truthy (JFloat (Finite m e)) = (m \<noteq> 0)"
| "truthy (JFloat _) = True"
| "truthy (JStr s) = (s \<noteq> [])"
| "truthy (JArr xs) = (xs \<noteq> [])"
| "truthy (JObj kvs) = (kvs \<noteq> [])"

text \<open>\<^verbatim>\<open>x.get(k, default)\<close>: only a dict has the method; anything else raises AttributeError.\<close>

fun py_get :: "json \<Rightarrow> string \<Rightarrow> json \<Rightarrow> error + json" where
  "py_get (JObj kvs) k dflt = Inr (case map_of kvs k of None \<Rightarrow> dflt | Some v \<Rightarrow> v)"
| "py_get _ k dflt = Inl AttributeError"

text \<open>\<^verbatim>\<open>x[k]\<close> with a string key: KeyError on a dict without the key, TypeError on
  every other JSON value (lists and strings want integer indices, the rest is not
  subscriptable).\<close>

fun py_getitem :: "json \<Rightarrow> string \<Rightarrow> error + json" where
  "py_getitem (JObj kvs) k = (case map_of kvs k of None \<Rightarrow> Inl KeyError | Some v \<Rightarrow> Inr v)"
| "py_getitem _ k = Inl TypeError"

text \<open>Iterating a value in a \<^verbatim>\<open>for\<close> loop: a list gives its elements, a dict its keys,
  a string its characters; the other values are not iterable.\<close>

fun py_iter :: "json \<Rightarrow> error + json list" where
  "py_iter (JArr xs) = Inr xs"
| "py_iter (JObj kvs) = Inr (map (\<lambda>kv. JStr (fst kv)) kvs)"
| "py_iter (JStr s) = Inr (map (\<lambda>c. JStr [c]) s)"
| "py_iter _ = Inl TypeError"

fun is_dict :: "json \<Rightarrow> bool" where
  "is_dict (JObj kvs) = True"
| "is_dict _ = False"

text \<open>\<^verbatim>\<open>str.lower\<close> on the characters a \<open>char\<close> can hold (Latin-1), and \<^verbatim>\<open>str.endswith\<close>.\<close>

definition upper_letters :: string where
  "upper_letters =
     ''ABCDEFGHIJKLMNOPQRSTUVWXYZ'' @
     [CHR 0xC0, CHR 0xC1, CHR 0xC2, CHR 0xC3, CHR 0xC4, CHR 0xC5, CHR 0xC6, CHR 0xC7,
      CHR 0xC8, CHR 0xC9, CHR 0xCA, CHR 0xCB, CHR 0xCC, CHR 0xCD, CHR 0xCE, CHR 0xCF,
      CHR 0xD0, CHR 0xD1, CHR 0xD2, CHR 0xD3, CHR 0xD4, CHR 0xD5, CHR 0xD6,
      CHR 0xD8, CHR 0xD9, CHR 0xDA, CHR 0xDB, CHR 0xDC, CHR 0xDD, CHR 0xDE]"

definition lower_letters :: string where
  "lower_letters =
     ''abcdefghijklmnopqrstuvwxyz'' @
     [CHR 0xE0, CHR 0xE1, CHR 0xE2, CHR 0xE3, CHR 0xE4, CHR 0xE5, CHR 0xE6, CHR 0xE7,
      CHR 0xE8, CHR 0xE9, CHR 0xEA, CHR 0xEB, CHR 0xEC, CHR 0xED, CHR 0xEE, CHR 0xEF,
      CHR 0xF0, CHR 0xF1, CHR 0xF2, CHR 0xF3, CHR 0xF4, CHR 0xF5, CHR 0xF6,
      CHR 0xF8, CHR 0xF9, CHR 0xFA, CHR 0xFB, CHR 0xFC, CHR 0xFD, CHR 0xFE]"

definition lower_char :: "char \<Rightarrow> char" where
  "lower_char c = (case map_of (zip upper_letters lower_letters) c of Some d \<Rightarrow> d | None \<Rightarrow> c)"

definition lower :: "string \<Rightarrow> string" where
  "lower s = map lower_char s"

definition endswith :: "string \<Rightarrow> string \<Rightarrow> bool" where
  "endswith s suf = (length suf \<le> length s \<and> drop (length s - length suf) s = suf)"

text \<open>
  What \<^verbatim>\<open>print\<close> writes is kept as one line per call, each line the pieces of the
  f-string: literal text, a value formatted by Python's \<^verbatim>\<open>str\<close>, or the message of a
  caught exception.
\<close>

datatype frag = Lit string | Val json | Exc error

type_synonym line = "frag list"

section \<open>data\_indexer.py: the document extractor\<close>

text \<open>A byte is a \<open>char\<close>; Latin-1 gives every byte the character of the same code.\<close>

type_synonym bytes = "char list"

text \<open>
  The standard-library calls of the extractor, taken as given: \<^verbatim>\<open>bytes.decode\<close> for the
  two encodings (UTF-8 may raise, Latin-1 never does) and \<^verbatim>\<open>json.loads\<close>
  (\<open>None\<close> when it raises).
\<close>

record stdlib =
  decode_utf8 :: "bytes \<Rightarrow> string option"
  decode_latin1 :: "bytes \<Rightarrow> string"
  json_loads :: "string \<Rightarrow> json option"

text \<open>One entry of \<^verbatim>\<open>sorted(path.rglob('*.json'))\<close>: \<^verbatim>\<open>str(p)\<close>, \<^verbatim>\<open>p.name\<close> and what
  reading the file gives (\<open>None\<close> when \<^verbatim>\<open>open\<close> or \<^verbatim>\<open>read\<close> raises).\<close>

record entry =
  file_str :: string
  file_name :: string
  file_bytes :: "bytes option"

text \<open>
  The \<^verbatim>\<open>Path\<close> argument together with what the file system answers about it:
  its string, stem and suffix, the two kind tests, the sorted result of the
  recursive walk, the members of the archive in \<^verbatim>\<open>namelist()\<close> order with what
  \<^verbatim>\<open>zf.open(name).read()\<close> gives (\<open>None\<close> for the whole list when
  \<^verbatim>\<open>ZipFile(path)\<close> raises), and the bytes of the file itself.
\<close>

record path =
  path_str :: string
  stem :: string
  suffix :: string
  is_dir :: bool
  is_file :: bool
  rglob_json :: "entry list"
  zip_members :: "(string \<times> bytes option) list option"
  read_bytes :: "bytes option"

text \<open>\<^verbatim>\<open>path.name\<close>: pathlib cuts the stem and the suffix out of the name, at its last
  dot, so the name is the one followed by the other.\<close>

definition name :: "path \<Rightarrow> string" where
  "name p = stem p @ suffix p"

datatype event = Yield json json | Print line

text \<open>Lines 32-35: UTF-8 first, Latin-1 when that raises.\<close>

definition decode :: "stdlib \<Rightarrow> bytes \<Rightarrow> string" where
  "decode lib raw = (case decode_utf8 lib raw of Some s \<Rightarrow> s | None \<Rightarrow> decode_latin1 lib raw)"

text \<open>Lines 37, 66, 91: \<^verbatim>\<open>data.get('uuid') or data.get('thread', {}).get('uuid') or fallback\<close>.
  \<^verbatim>\<open>or\<close> gives its first truthy operand, and the last one when none is.\<close>

definition derive_id :: "json \<Rightarrow> string \<Rightarrow> error + json" where
  "derive_id data fallback =
     bind_err (py_get data ''uuid'' JNull) (\<lambda>a.
       if truthy a then Inr a
       else bind_err (py_get data ''thread'' (JObj [])) (\<lambda>t.
              bind_err (py_get t ''uuid'' JNull) (\<lambda>b.
                if truthy b then Inr b else Inr (JStr fallback))))"

text \<open>Lines 38-48: the document, nine keys in this order.\<close>

definition make_doc :: "json \<Rightarrow> json \<Rightarrow> error + json" where
  "make_doc data doc_id =
     bind_err (py_get data ''title'' JNull) (\<lambda>v_title.
     bind_err (py_get data ''text'' JNull) (\<lambda>v_text.
     bind_err (py_get data ''author'' JNull) (\<lambda>v_author.
     bind_err (py_get data ''published'' JNull) (\<lambda>v_published.
     bind_err (py_get data ''language'' JNull) (\<lambda>v_language.
     bind_err (py_get data ''sentiment'' JNull) (\<lambda>v_sentiment.
     bind_err (py_get data ''categories'' JNull) (\<lambda>v_categories.
     bind_err (py_get data ''url'' JNull) (\<lambda>v_url.
       Inr (JObj [(''uuid'', doc_id), (''title'', v_title), (''text'', v_text),
                  (''author'', v_author), (''published'', v_published),
                  (''language'', v_language), (''sentiment'', v_sentiment),
                  (''categories'', v_categories), (''url'', v_url)])))))))))"

text \<open>The body of the \<^verbatim>\<open>try\<close> block, which the three branches repeat word for word
  but for the fallback id: read, decode, parse, derive the id, build the document.\<close>

definition read_item :: "stdlib \<Rightarrow> string \<Rightarrow> bytes option \<Rightarrow> error + (json \<times> json)" where
  "read_item lib fallback content =
     (case content of
        None \<Rightarrow> Inl OSError
      | Some raw \<Rightarrow>
          (case json_loads lib (decode lib raw) of
             None \<Rightarrow> Inl JSONDecodeError
           | Some data \<Rightarrow>
               bind_err (derive_id data fallback) (\<lambda>doc_id.
               bind_err (make_doc data doc_id) (\<lambda>doc. Inr (doc_id, doc)))))"

text \<open>\<^verbatim>\<open>try: ... yield doc_id, doc  except Exception as e: print(...)\<close>.\<close>

definition item_event :: "line \<Rightarrow> error + (json \<times> json) \<Rightarrow> event" where
  "item_event what r =
     (case r of
        Inr (doc_id, doc) \<Rightarrow> Yield doc_id doc
      | Inl e \<Rightarrow> Print (Lit ''Failed reading '' # what @ [Lit '': '', Exc e]))"

definition dir_item :: "stdlib \<Rightarrow> path \<Rightarrow> entry \<Rightarrow> event" where
  "dir_item lib p f =
     item_event [Val (JStr (file_str f))]
       (read_item lib (name p @ ''/'' @ file_name f) (file_bytes f))"

definition zip_item :: "stdlib \<Rightarrow> path \<Rightarrow> string \<times> bytes option \<Rightarrow> event" where
  "zip_item lib p m =
     item_event [Val (JStr (fst m)), Lit '' in '', Val (JStr (path_str p))]
       (read_item lib (stem p @ ''/'' @ fst m) (snd m))"

definition file_item :: "stdlib \<Rightarrow> path \<Rightarrow> event" where
  "file_item lib p =
     item_event [Val (JStr (path_str p))] (read_item lib (name p) (read_bytes p))"

text \<open>The generator, as the list of what it yields and prints, in order. Opening the
  archive is outside every \<^verbatim>\<open>try\<close>, so its failure leaves the generator.\<close>

definition iter_jsons_in_path :: "stdlib \<Rightarrow> path \<Rightarrow> error + event list" where
  "iter_jsons_in_path lib p =
     (if is_dir p then Inr (map (dir_item lib p) (rglob_json p))
      else if lower (suffix p) = ''.zip'' then
        (case zip_members p of
           None \<Rightarrow> Inl BadZipFile
         | Some ms \<Rightarrow>
             Inr (map (zip_item lib p) (filter (\<lambda>m. endswith (lower (fst m)) ''.json'') ms)))
      else if is_file p \<and> lower (suffix p) = ''.json'' then Inr [file_item lib p]
      else Inr [Print [Lit ''Skipping unsupported path type: '', Val (JStr (path_str p))]])"

fun yielded :: "event list \<Rightarrow> (json \<times> json) list" where
  "yielded [] = []"
| "yielded (Yield i d # es) = (i, d) # yielded es"
| "yielded (Print l # es) = yielded es"

fun printed :: "event list \<Rightarrow> line list" where
  "printed [] = []"
| "printed (Yield i d # es) = printed es"
| "printed (Print l # es) = l # printed es"

section \<open>data\_indexer.py: the batch loader\<close>

text \<open>Lines 127-131: the write action for one pair, a dict of three keys.\<close>

definition make_action :: "string \<Rightarrow> json \<times> json \<Rightarrow> json" where
  "make_action index_name d =
     JObj [(''_index'', JStr index_name), (''_id'', fst d), (''_source'', snd d)]"

text \<open>
  Lines 126-136, the \<^verbatim>\<open>for\<close> loop. \<^verbatim>\<open>helpers.bulk(es_client, actions)\<close> belongs to the
  client library: it is the parameter \<open>bulk\<close>, which takes the state of the service
  and the batch and gives the new state, or raises. Nothing catches what it raises.
\<close>

fun bulk_loop ::
  "('es \<Rightarrow> json list \<Rightarrow> error + 'es) \<Rightarrow> string \<Rightarrow> int \<Rightarrow> (json \<times> json) list \<Rightarrow>
   'es \<Rightarrow> json list \<Rightarrow> int \<Rightarrow> error + ('es \<times> json list \<times> int)" where
  "bulk_loop bulk index_name batch_size [] es actions tot = Inr (es, actions, tot)"
| "bulk_loop bulk index_name batch_size (d # rest) es actions tot =
     (let actions' = actions @ [make_action index_name d]
      in if int (length actions') \<ge> batch_size then
           (case bulk es actions' of
              Inl e \<Rightarrow> Inl e
            | Inr es' \<Rightarrow>
                bulk_loop bulk index_name batch_size rest es' []
                  (tot + int (length actions')))
         else bulk_loop bulk index_name batch_size rest es actions' tot)"

text \<open>Lines 123-143: the loop from the empty accumulator, then the remainder. The
  result is the returned total and the state the service is left in.\<close>

definition bulk_index ::
  "('es \<Rightarrow> json list \<Rightarrow> error + 'es) \<Rightarrow> 'es \<Rightarrow> string \<Rightarrow> (json \<times> json) list \<Rightarrow> int \<Rightarrow>
   error + (int \<times> 'es)" where
  "bulk_index bulk es_client index_name docs_iter batch_size =
     (case bulk_loop bulk index_name batch_size docs_iter es_client [] 0 of
        Inl e \<Rightarrow> Inl e
      | Inr (es, actions, tot) \<Rightarrow>
          if actions \<noteq> [] then
            (case bulk es actions of
               Inl e \<Rightarrow> Inl e
             | Inr es' \<Rightarrow> Inr (tot + int (length actions), es'))
          else Inr (tot, es))"

text \<open>A service that accepts every bulk submission; its state is the list of the
  submissions it has received, oldest first.\<close>

definition accepting :: "json list list \<Rightarrow> json list \<Rightarrow> error + json list list" where
  "accepting received actions = Inr (received @ [actions])"

section \<open>config.py\<close>

definition INDEX_NAME :: string where
  "INDEX_NAME = ''esindex-v1.0''"

definition DEFAULT_SEARCH_SIZE :: int where
  "DEFAULT_SEARCH_SIZE = 10"

section \<open>search.py: the query engine\<close>

text \<open>Lines 25-39: the request body.\<close>

definition query_body :: "string \<Rightarrow> json" where
  "query_body query_text =
     JObj [(''query'',
       JObj [(''query_string'',
         JObj [(''query'', JStr query_text),
               (''fields'', JArr [JStr ''title'', JStr ''text'', JStr ''author'',
                                  JStr ''language'', JStr ''url'', JStr ''categories''])])])]"

text \<open>
  Lines 23-47. \<^verbatim>\<open>es_client.search(index=..., body=..., size=...)\<close> is the parameter
  \<open>es_search\<close>, which answers with a result or raises an \<^verbatim>\<open>Exception\<close>. The function
  gives what it returns and what it prints. The argument \<^verbatim>\<open>size\<close> is written \<open>size_n\<close>
  here, and the variable \<^verbatim>\<open>total\<close> of the other functions \<open>tot\<close>, since HOL has
  constants of those names.
\<close>

definition search_boolean_es ::
  "(string \<Rightarrow> json \<Rightarrow> int \<Rightarrow> error + json) \<Rightarrow> string \<Rightarrow> string \<Rightarrow> int \<Rightarrow> json \<times> line list" where
  "search_boolean_es es_search query_text index_name size_n =
     (case es_search index_name (query_body query_text) size_n of
        Inr res \<Rightarrow> (res, [])
      | Inl e \<Rightarrow> (JNull, [[Lit ''Error querying Elasticsearch: '', Exc e]]))"

section \<open>search.py: the result presenter\<close>

text \<open>Line 63: \<^verbatim>\<open>search_results['hits']['total']\<close>, and the total taken from it.\<close>

definition hits_total :: "json \<Rightarrow> error + json" where
  "hits_total search_results =
     bind_err (py_getitem search_results ''hits'') (\<lambda>h. py_getitem h ''total'')"

definition total_hits :: "json \<Rightarrow> error + json" where
  "total_hits search_results =
     bind_err (hits_total search_results) (\<lambda>t.
       if is_dict t then bind_err (hits_total search_results) (\<lambda>t'. py_getitem t' ''value'')
       else hits_total search_results)"

text \<open>
  Line 77: \<^verbatim>\<open>text[:200] + ("..." if len(text) > 200 else "")\<close>. Only a string passes:
  \<^verbatim>\<open>None\<close>, booleans and numbers are not subscriptable, a dict takes no slice (a
  TypeError up to Python 3.11, a KeyError since; the model has the former), and a list
  slices but does not add to a string.
\<close>

fun snippet_of :: "json \<Rightarrow> error + string" where
  "snippet_of (JStr text) = Inr (take 200 text @ (if length text > 200 then ''...'' else []))"
| "snippet_of _ = Inl TypeError"

text \<open>The argument of each \<^verbatim>\<open>print\<close> of the loop body: the line, or the exception
  raised while the f-string is evaluated.\<close>

definition item_line :: "string \<Rightarrow> json \<Rightarrow> string \<Rightarrow> error + line" where
  "item_line label hit key = bind_err (py_getitem hit key) (\<lambda>v. Inr [Lit label, Val v])"

definition field_line :: "string \<Rightarrow> json \<Rightarrow> string \<Rightarrow> string \<Rightarrow> error + line" where
  "field_line label hit key placeholder =
     bind_err (py_getitem hit ''_source'') (\<lambda>src.
     bind_err (py_get src key (JStr placeholder)) (\<lambda>v. Inr [Lit label, Val v]))"

definition snippet_line :: "json \<Rightarrow> error + line" where
  "snippet_line hit =
     bind_err (py_getitem hit ''_source'') (\<lambda>src.
     bind_err (py_get src ''text'' (JStr [])) (\<lambda>text.
     bind_err (snippet_of text) (\<lambda>snippet.
       Inr [Lit (''Snippet:'' @ [CHR 0x0A]), Val (JStr snippet)])))"

text \<open>Statements run in order; the first exception ends the run and keeps what was
  printed before it.\<close>

fun run_prints :: "(error + line) list \<Rightarrow> line list \<times> error option" where
  "run_prints [] = ([], None)"
| "run_prints (Inl e # rest) = ([], Some e)"
| "run_prints (Inr l # rest) = (case run_prints rest of (ls, r) \<Rightarrow> (l # ls, r))"

text \<open>Lines 72-84: the body of the loop for hit number \<open>i\<close>.\<close>

definition show_hit :: "int \<Rightarrow> json \<Rightarrow> line list \<times> error option" where
  "show_hit i hit =
     run_prints
       [Inr [Lit ''Result #'', Val (JInt i)],
        item_line ''Score : '' hit ''_score'',
        item_line ''ID    : '' hit ''_id'',
        field_line ''Title : '' hit ''title'' ''(no title)'',
        snippet_line hit,
        field_line ''Author: '' hit ''author'' ''(no author)'',
        field_line ''Published: '' hit ''published'' ''(no date)'',
        field_line ''Language: '' hit ''language'' ''(no language)'',
        field_line ''URL: '' hit ''url'' ''(no url)'',
        field_line ''Categories: '' hit ''categories'' ''(no categories)'',
        Inr [Lit (replicate 70 (CHR ''-'') @ [CHR 0x0A])]]"

text \<open>Line 71: \<^verbatim>\<open>for i, hit in enumerate(..., 1)\<close>.\<close>

fun show_hits :: "int \<Rightarrow> json list \<Rightarrow> line list \<times> error option" where
  "show_hits i [] = ([], None)"
| "show_hits i (hit # rest) =
     (case show_hit i hit of
        (ls, Some e) \<Rightarrow> (ls, Some e)
      | (ls, None) \<Rightarrow> (case show_hits (i + 1) rest of (ls', r) \<Rightarrow> (ls @ ls', r)))"

definition header :: "string \<Rightarrow> json \<Rightarrow> line list" where
  "header query_text tot =
     [[Lit (CHR 0x0A # replicate 70 (CHR ''=''))],
      [Lit ''Query: '', Val (JStr query_text)],
      [Lit ''Total hits: '', Val tot],
      [Lit (replicate 70 (CHR ''='') @ [CHR 0x0A])]]"

text \<open>Lines 50-84: the lines printed, and the exception that ended the call if one
  did.\<close>

definition display_search_results :: "json \<Rightarrow> string \<Rightarrow> line list \<times> error option" where
  "display_search_results search_results query_text =
     (if \<not> truthy search_results then ([[Lit ''No results found.'']], None)
      else
        (case total_hits search_results of
           Inl e \<Rightarrow> ([], Some e)
         | Inr tot \<Rightarrow>
             (case bind_err (py_getitem search_results ''hits'') (\<lambda>h.
                   bind_err (py_getitem h ''hits'') py_iter) of
                Inl e \<Rightarrow> (header query_text tot, Some e)
              | Inr hits \<Rightarrow>
                  (case show_hits 1 hits of
                     (ls, r) \<Rightarrow> (header query_text tot @ ls, r)))))"

section \<open>Notions of the specification\<close>

text \<open>The value a document holds for a key of the source object: the value itself
  when the key is there, the null marker when it is not.\<close>

definition or_null :: "json option \<Rightarrow> json" where
  "or_null x = (case x of None \<Rightarrow> JNull | Some v \<Rightarrow> v)"

text \<open>The document of section 3 of the specification for a source object and an id:
  every optional field taken verbatim or null, none omitted.\<close>

definition document_of :: "(string \<times> json) list \<Rightarrow> json \<Rightarrow> json" where
  "document_of kvs doc_id =
     JObj [(''uuid'', doc_id),
           (''title'', or_null (map_of kvs ''title'')),
           (''text'', or_null (map_of kvs ''text'')),
           (''author'', or_null (map_of kvs ''author'')),
           (''published'', or_null (map_of kvs ''published'')),
           (''language'', or_null (map_of kvs ''language'')),
           (''sentiment'', or_null (map_of kvs ''sentiment'')),
           (''categories'', or_null (map_of kvs ''categories'')),
           (''url'', or_null (map_of kvs ''url''))]"

text \<open>A parsed value the extractor can project: an object whose id derivation meets
  no value without a \<^verbatim>\<open>get\<close> method, that is, whose \<^verbatim>\<open>uuid\<close> is truthy or whose
  \<^verbatim>\<open>thread\<close> is missing or an object.\<close>

fun projectable :: "json \<Rightarrow> bool" where
  "projectable (JObj kvs) =
     (truthy (or_null (map_of kvs ''uuid'')) \<or>
      (case map_of kvs ''thread'' of None \<Rightarrow> True | Some t \<Rightarrow> is_dict t))"
| "projectable _ = False"

text \<open>An item that reads, parses and is projectable; an item that is corrupt (it
  reads but does not parse).\<close>

definition extractable :: "stdlib \<Rightarrow> bytes option \<Rightarrow> bool" where
  "extractable lib content =
     (case content of
        None \<Rightarrow> False
      | Some raw \<Rightarrow>
          (case json_loads lib (decode lib raw) of None \<Rightarrow> False | Some data \<Rightarrow> projectable data))"

definition corrupt :: "stdlib \<Rightarrow> bytes option \<Rightarrow> bool" where
  "corrupt lib content =
     (case content of None \<Rightarrow> False | Some raw \<Rightarrow> json_loads lib (decode lib raw) = None)"

text \<open>The items of a source, in the order the extractor visits them.\<close>

definition visited :: "path \<Rightarrow> bytes option list" where
  "visited p =
     (if is_dir p then map file_bytes (rglob_json p)
      else if lower (suffix p) = ''.zip'' then
        (case zip_members p of
           None \<Rightarrow> []
         | Some ms \<Rightarrow> map snd (filter (\<lambda>m. endswith (lower (fst m)) ''.json'') ms))
      else if is_file p \<and> lower (suffix p) = ''.json'' then [read_bytes p]
      else [])"

text \<open>A pair is the projection of an item: the item parses to an object and the
  document is that object's, under the pair's id.\<close>

definition projects :: "stdlib \<Rightarrow> bytes option \<Rightarrow> json \<times> json \<Rightarrow> bool" where
  "projects lib content d =
     (case content of
        None \<Rightarrow> False
      | Some raw \<Rightarrow>
          (case json_loads lib (decode lib raw) of
             Some (JObj kvs) \<Rightarrow> snd d = document_of kvs (fst d)
           | _ \<Rightarrow> False))"

section \<open>Concrete inputs\<close>

text \<open>A library for the examples: UTF-8 accepts the ASCII texts, and the parser
  knows the texts of a table and raises on every other.\<close>

definition table_lib :: "(string \<times> json) list \<Rightarrow> stdlib" where
  "table_lib table =
     \<lparr>decode_utf8 = (\<lambda>raw. if list_all (\<lambda>b. (of_char b :: nat) < 128) raw then Some raw else None),
      decode_latin1 = (\<lambda>raw. raw),
      json_loads = map_of table\<rparr>"

text \<open>A directory of the given name and entries; an entry of it.\<close>

definition dir_of :: "string \<Rightarrow> entry list \<Rightarrow> path" where
  "dir_of n fs =
     \<lparr>path_str = n, stem = n, suffix = [], is_dir = True, is_file = False,
      rglob_json = fs, zip_members = None, read_bytes = None\<rparr>"

definition entry_of :: "string \<Rightarrow> string \<Rightarrow> bytes option \<Rightarrow> entry" where
  "entry_of d n content = \<lparr>file_str = d @ ''/'' @ n, file_name = n, file_bytes = content\<rparr>"

text \<open>A hit of the index with the given id and source, scored 1.5, and a result
  envelope with the given total and hits.\<close>

definition hit_of :: "json \<Rightarrow> json \<Rightarrow> json" where
  "hit_of hid src =
     JObj [(''_index'', JStr INDEX_NAME), (''_id'', hid), (''_score'', JFloat (Finite 3 (- 1))),
           (''_source'', src)]"

definition result_of :: "json \<Rightarrow> json list \<Rightarrow> json" where
  "result_of tot hits =
     JObj [(''took'', JInt 3), (''hits'', JObj [(''total'', tot), (''hits'', JArr hits)])]"

section \<open>The extractor: one item\<close>

lemma read_item_obj:
  assumes "json_loads lib (decode lib raw) = Some (JObj kvs)"
  shows "read_item lib fb (Some raw) =
     bind_err (derive_id (JObj kvs) fb) (\<lambda>doc_id.
       bind_err (make_doc (JObj kvs) doc_id) (\<lambda>doc. Inr (doc_id, doc)))"
  using assms by (simp add: read_item_def)

lemma make_doc_obj: "make_doc (JObj kvs) i = Inr (document_of kvs i)"
  by (simp add: make_doc_def bind_err_def document_of_def or_null_def)

lemma derive_id_uuid:
  "map_of kvs ''uuid'' = Some v \<Longrightarrow> truthy v \<Longrightarrow> derive_id (JObj kvs) fb = Inr v"
  by (simp add: derive_id_def bind_err_def)

lemma derive_id_fallback:
  assumes "map_of kvs ''uuid'' = None"
    and "map_of kvs ''thread'' = None \<or>
         (\<exists>t. map_of kvs ''thread'' = Some (JObj t) \<and> map_of t ''uuid'' = None)"
  shows "derive_id (JObj kvs) fb = Inr (JStr fb)"
  using assms by (auto simp add: derive_id_def bind_err_def)

lemma read_item_fallback:
  assumes "json_loads lib (decode lib raw) = Some (JObj kvs)"
    and "map_of kvs ''uuid'' = None"
    and "map_of kvs ''thread'' = None \<or>
         (\<exists>t. map_of kvs ''thread'' = Some (JObj t) \<and> map_of t ''uuid'' = None)"
  shows "read_item lib fb (Some raw) = Inr (JStr fb, document_of kvs (JStr fb))"
  using assms(1) derive_id_fallback [OF assms(2,3)]
  by (simp add: read_item_obj make_doc_obj bind_err_def)

lemma lower_json_nonempty: "lower s = ''.json'' \<Longrightarrow> s \<noteq> []"
  by (auto simp add: lower_def)

lemma derive_id_projectable:
  "projectable (JObj kvs) \<Longrightarrow> \<exists>i. derive_id (JObj kvs) fb = Inr i"
  by (cases "map_of kvs ''thread''"; cases "the (map_of kvs ''thread'')")
     (auto simp add: derive_id_def bind_err_def or_null_def split: option.splits)

lemma extractable_read:
  assumes "extractable lib c"
  shows "\<exists>i doc. read_item lib fb c = Inr (i, doc) \<and> projects lib c (i, doc)"
proof -
  from assms obtain raw data where c: "c = Some raw"
    and data: "json_loads lib (decode lib raw) = Some data" and pr: "projectable data"
    by (auto simp add: extractable_def split: option.splits)
  from pr obtain kvs where kvs: "data = JObj kvs"
    by (cases data) auto
  from pr kvs obtain i where "derive_id (JObj kvs) fb = Inr i"
    using derive_id_projectable by blast
  with c data kvs show ?thesis
    by (simp add: read_item_obj make_doc_obj bind_err_def projects_def)
qed

lemma corrupt_read: "corrupt lib c \<Longrightarrow> read_item lib fb c = Inl JSONDecodeError"
  by (auto simp add: corrupt_def read_item_def split: option.splits)

section \<open>The extractor: a list of items\<close>

lemma yielded_append: "yielded (xs @ ys) = yielded xs @ yielded ys"
  by (induction xs rule: yielded.induct) auto

lemma printed_append: "printed (xs @ ys) = printed xs @ printed ys"
  by (induction xs rule: printed.induct) auto

lemma items_all_extractable:
  assumes "\<forall>x \<in> set xs. extractable lib (c x)"
  shows "list_all2 (projects lib) (map c xs)
           (yielded (map (\<lambda>x. item_event (w x) (read_item lib (fb x) (c x))) xs))
       \<and> printed (map (\<lambda>x. item_event (w x) (read_item lib (fb x) (c x))) xs) = []"
  using assms
proof (induction xs)
  case Nil
  then show ?case by simp
next
  case (Cons x xs)
  from Cons.prems have "extractable lib (c x)" by simp
  then obtain i doc where "read_item lib (fb x) (c x) = Inr (i, doc)" "projects lib (c x) (i, doc)"
    using extractable_read by blast
  with Cons show ?case
    by (simp add: item_event_def)
qed

lemma dir_items:
  "map (dir_item lib p) fs =
     map (\<lambda>f. item_event [Val (JStr (file_str f))]
                (read_item lib (name p @ ''/'' @ file_name f) (file_bytes f))) fs"
  by (simp add: dir_item_def)

lemma zip_items:
  "map (zip_item lib p) ms =
     map (\<lambda>m. item_event [Val (JStr (fst m)), Lit '' in '', Val (JStr (path_str p))]
                (read_item lib (stem p @ ''/'' @ fst m) (snd m))) ms"
  by (simp add: zip_item_def)

lemma file_items:
  "[file_item lib p] =
     map (\<lambda>q. item_event [Val (JStr (path_str q))] (read_item lib (name q) (read_bytes q))) [p]"
  by (simp add: file_item_def)

lemma dir_all_extractable:
  assumes "\<forall>f \<in> set fs. extractable lib (file_bytes f)"
  shows "list_all2 (projects lib) (map file_bytes fs) (yielded (map (dir_item lib p) fs))
       \<and> printed (map (dir_item lib p) fs) = []"
  unfolding dir_items using assms by (rule items_all_extractable)

lemma dir_failing_item:
  assumes "read_item lib (name p @ ''/'' @ file_name f) (file_bytes f) = Inl e"
  shows "dir_item lib p f = Print [Lit ''Failed reading '', Val (JStr (file_str f)), Lit '': '', Exc e]"
  using assms by (simp add: dir_item_def item_event_def)

lemma zip_all_extractable:
  assumes "\<forall>m \<in> set ms. extractable lib (snd m)"
  shows "list_all2 (projects lib) (map snd ms) (yielded (map (zip_item lib p) ms))
       \<and> printed (map (zip_item lib p) ms) = []"
  unfolding zip_items using assms by (rule items_all_extractable)

lemma file_all_extractable:
  assumes "\<forall>q \<in> set [p]. extractable lib (read_bytes q)"
  shows "list_all2 (projects lib) (map read_bytes [p]) (yielded [file_item lib p])
       \<and> printed [file_item lib p] = []"
  unfolding file_items using assms by (rule items_all_extractable)

section \<open>The batch loader against a service that accepts every submission\<close>

lemma loop_flush:
  "bs \<le> int (length actions) + 1 \<Longrightarrow>
   bulk_loop accepting idx bs (d # docs) received actions tot =
   bulk_loop accepting idx bs docs (received @ [actions @ [make_action idx d]]) []
     (tot + (int (length actions) + 1))"
  by (simp add: Let_def accepting_def add.commute)

lemma loop_keep:
  "int (length actions) + 1 < bs \<Longrightarrow>
   bulk_loop bulk idx bs (d # docs) es actions tot =
   bulk_loop bulk idx bs docs es (actions @ [make_action idx d]) tot"
  by (simp add: Let_def)

lemma loop_general:
  "\<exists>received' actions' tot'.
     bulk_loop accepting idx bs docs received actions tot = Inr (received', actions', tot')
     \<and> concat received' @ actions' = concat received @ actions @ map (make_action idx) docs
     \<and> tot' + int (length actions') = tot + int (length actions) + int (length docs)"
proof (induction docs arbitrary: received actions tot)
  case Nil
  then show ?case by simp
next
  case (Cons d docs)
  let ?acts = "actions @ [make_action idx d]"
  show ?case
  proof (cases "bs \<le> int (length actions) + 1")
    case True
    from Cons [of "received @ [?acts]" "[]" "tot + (int (length actions) + 1)"]
    show ?thesis
      unfolding loop_flush [OF True] by auto
  next
    case False
    then have "int (length actions) + 1 < bs" by simp
    from Cons [of received ?acts tot]
    show ?thesis
      unfolding loop_keep [OF \<open>int (length actions) + 1 < bs\<close>] by auto
  qed
qed

lemma loop_fill:
  "int (length actions + length docs) < bs \<Longrightarrow>
   bulk_loop bulk idx bs docs es actions tot = Inr (es, actions @ map (make_action idx) docs, tot)"
  by (induction docs arbitrary: actions) (auto simp add: Let_def)

lemma loop_batch:
  "ds \<noteq> [] \<Longrightarrow> int (length actions + length ds) = bs \<Longrightarrow>
   bulk_loop accepting idx bs (ds @ rest) received actions tot =
   bulk_loop accepting idx bs rest (received @ [actions @ map (make_action idx) ds]) []
     (tot + bs)"
proof (induction ds arbitrary: actions)
  case Nil
  then show ?case by simp
next
  case (Cons d ds)
  show ?case
  proof (cases "ds = []")
    case True
    with Cons.prems have "bs \<le> int (length actions) + 1" "bs = int (length actions) + 1"
      by simp_all
    with True loop_flush [OF this(1), of idx d rest received tot] show ?thesis
      by (simp del: bulk_loop.simps)
  next
    case False
    with Cons.prems have "int (length actions) + 1 < bs"
      by (cases ds) auto
    then have "bulk_loop accepting idx bs ((d # ds) @ rest) received actions tot =
        bulk_loop accepting idx bs (ds @ rest) received (actions @ [make_action idx d]) tot"
      unfolding append_Cons by (rule loop_keep)
    also have "\<dots> = bulk_loop accepting idx bs rest
        (received @ [(actions @ [make_action idx d]) @ map (make_action idx) ds]) [] (tot + bs)"
      using False Cons.prems by (intro Cons.IH) simp_all
    finally show ?thesis
      by simp
  qed
qed


lemma bulk_index_general:
  "\<exists>received. bulk_index accepting [] idx docs bs = Inr (int (length docs), received)
      \<and> concat received = map (make_action idx) docs"
proof -
  from loop_general [of idx bs docs "[]" "[]" 0] obtain r a t where
    loop: "bulk_loop accepting idx bs docs [] [] 0 = Inr (r, a, t)"
    and c: "concat r @ a = map (make_action idx) docs"
    and t: "t + int (length a) = int (length docs)"
    by auto
  show ?thesis
  proof (cases "a = []")
    case True
    with loop c t show ?thesis
      by (simp add: bulk_index_def)
  next
    case False
    with loop c t show ?thesis
      by (simp add: bulk_index_def accepting_def)
  qed
qed

lemma bulk_index_three:
  assumes "1 \<le> B" and "length docs = 2 * B + 1"
  shows "bulk_index accepting [] idx docs (int B) =
     Inr (int (2 * B + 1),
          [map (make_action idx) (take B docs),
           map (make_action idx) (take B (drop B docs)),
           map (make_action idx) (drop (2 * B) docs)])"
proof -
  let ?d1 = "take B docs" and ?d2 = "take B (drop B docs)" and ?d3 = "drop (2 * B) docs"
  let ?m = "map (make_action idx)"
  have docs: "docs = ?d1 @ ?d2 @ ?d3"
    by (metis append_take_drop_id drop_drop mult_2)
  have l1: "length ?d1 = B" and l2: "length ?d2 = B" and l3: "length ?d3 = 1"
    using assms by simp_all
  have n1: "?d1 \<noteq> []" and n2: "?d2 \<noteq> []" and n3: "?d3 \<noteq> []"
    using assms l1 l2 l3 by (auto simp del: length_take length_drop)
  have "bulk_loop accepting idx (int B) docs [] [] 0 =
      bulk_loop accepting idx (int B) (?d1 @ ?d2 @ ?d3) [] [] 0"
    using docs by simp
  also have "\<dots> = bulk_loop accepting idx (int B) (?d2 @ ?d3) ([] @ [[] @ ?m ?d1]) [] (0 + int B)"
    using n1 l1 by (intro loop_batch) simp_all
  also have "\<dots> = bulk_loop accepting idx (int B) ?d3 (([] @ [[] @ ?m ?d1]) @ [[] @ ?m ?d2]) []
      ((0 + int B) + int B)"
    using n2 l2 by (intro loop_batch) simp_all
  finally have two: "bulk_loop accepting idx (int B) docs [] [] 0 =
      bulk_loop accepting idx (int B) ?d3 [?m ?d1, ?m ?d2] [] (int (2 * B))"
    by simp
  show ?thesis
  proof (cases "B = 1")
    case True
    have "bulk_loop accepting idx (int B) (?d3 @ []) [?m ?d1, ?m ?d2] [] (int (2 * B)) =
        bulk_loop accepting idx (int B) [] ([?m ?d1, ?m ?d2] @ [[] @ ?m ?d3]) [] (int (2 * B) + int B)"
      using n3 l3 True by (intro loop_batch) simp_all
    with two True assms(2) show ?thesis
      by (simp add: bulk_index_def)
  next
    case False
    with assms(1) have "int (length ([] :: json list) + length ?d3) < int B"
      using l3 by simp
    then have "bulk_loop accepting idx (int B) ?d3 [?m ?d1, ?m ?d2] [] (int (2 * B)) =
        Inr ([?m ?d1, ?m ?d2], [] @ ?m ?d3, int (2 * B))"
      by (rule loop_fill)
    with two n3 assms(2) show ?thesis
      by (simp add: bulk_index_def accepting_def)
  qed
qed

section \<open>The result presenter\<close>

lemma hits_total_truthy: "hits_total r = Inr t \<Longrightarrow> truthy r"
  by (cases r) (auto simp add: hits_total_def bind_err_def split: option.splits)

lemma getitem_truthy: "py_getitem r k = Inr v \<Longrightarrow> truthy r"
  by (cases r) (auto split: option.splits)

lemma total_hits_bare: "hits_total r = Inr v \<Longrightarrow> \<not> is_dict v \<Longrightarrow> total_hits r = Inr v"
  by (simp add: total_hits_def bind_err_def)

lemma total_hits_object:
  "hits_total r = Inr (JObj tv) \<Longrightarrow> map_of tv ''value'' = Some v \<Longrightarrow> total_hits r = Inr v"
  by (simp add: total_hits_def bind_err_def)

lemma length_header: "length (header q t) = 4"
  by (simp add: header_def)

lemma display_header:
  assumes "truthy r" and "total_hits r = Inr t"
  shows "take 4 (fst (display_search_results r q)) = header q t"
  using assms
  by (auto simp add: display_search_results_def length_header split: sum.splits prod.splits)

lemma snippet_line_null:
  assumes "py_getitem hit ''_source'' = Inr (JObj src)" and "map_of src ''text'' = Some JNull"
  shows "snippet_line hit = Inl TypeError"
  using assms by (simp add: snippet_line_def bind_err_def)

lemma field_line_source:
  assumes "py_getitem hit ''_source'' = Inr (JObj src)"
  shows "field_line label hit key placeholder =
     Inr [Lit label, Val (case map_of src key of None \<Rightarrow> JStr placeholder | Some v \<Rightarrow> v)]"
  using assms by (simp add: field_line_def bind_err_def)

lemma show_hit_null_text_raises:
  assumes "py_getitem hit ''_source'' = Inr (JObj src)" and "map_of src ''text'' = Some JNull"
  shows "snd (show_hit i hit) \<noteq> None"
  using snippet_line_null [OF assms] field_line_source [OF assms(1)]
  by (cases "item_line ''Score : '' hit ''_score''"; cases "item_line ''ID    : '' hit ''_id''")
     (simp_all add: show_hit_def)

lemma show_hit_null_text:
  assumes "py_getitem hit ''_score'' = Inr sc" and "py_getitem hit ''_id'' = Inr hid"
    and "py_getitem hit ''_source'' = Inr (JObj src)" and "map_of src ''text'' = Some JNull"
  shows "show_hit i hit =
     ([[Lit ''Result #'', Val (JInt i)],
       [Lit ''Score : '', Val sc],
       [Lit ''ID    : '', Val hid],
       [Lit ''Title : '', Val (case map_of src ''title'' of None \<Rightarrow> JStr ''(no title)'' | Some v \<Rightarrow> v)]],
      Some TypeError)"
  using snippet_line_null [OF assms(3,4)] field_line_source [OF assms(3)] assms(1,2)
  by (simp add: show_hit_def item_line_def bind_err_def)

lemma show_hits_raises:
  assumes "hit \<in> set hits" and "\<And>i. snd (show_hit i hit) \<noteq> None"
  shows "snd (show_hits i hits) \<noteq> None"
  using assms(1)
proof (induction hits arbitrary: i)
  case Nil
  then show ?case by simp
next
  case (Cons h hits)
  show ?case
  proof (cases "snd (show_hit i h)")
    case None
    with assms(2) [of i] have "h \<noteq> hit" by auto
    with Cons.prems have "hit \<in> set hits" by simp
    from Cons.IH [OF this, of "i + 1"] None show ?thesis
      by (auto split: prod.splits option.splits)
  next
    case (Some e)
    then show ?thesis
      by (auto split: prod.splits)
  qed
qed

lemma show_hits_append:
  assumes "show_hits i pre = (ls, None)"
  shows "show_hits i (pre @ rest) =
     (ls @ fst (show_hits (i + int (length pre)) rest), snd (show_hits (i + int (length pre)) rest))"
  using assms
proof (induction pre arbitrary: i ls)
  case Nil
  then show ?case by simp
next
  case (Cons h pre)
  from Cons.prems obtain l1 l2 where h: "show_hit i h = (l1, None)"
    and p: "show_hits (i + 1) pre = (l2, None)" and ls: "ls = l1 @ l2"
    by (auto split: prod.splits option.splits)
  from Cons.IH [OF p] h ls show ?case
    by (simp add: ac_simps split: prod.splits)
qed

lemma show_hits_stop:
  assumes "snd (show_hit i hit) \<noteq> None"
  shows "show_hits i (hit # post) = show_hit i hit"
  using assms by (auto split: prod.splits option.splits)

lemma display_at_hit:
  assumes "py_getitem sr ''hits'' = Inr h" and "py_getitem h ''hits'' = Inr (JArr (pre @ hit # post))"
    and "total_hits sr = Inr tot" and "show_hits 1 pre = (ls, None)"
    and "snd (show_hit (1 + int (length pre)) hit) \<noteq> None"
  shows "display_search_results sr q =
     (header q tot @ ls @ fst (show_hit (1 + int (length pre)) hit),
      snd (show_hit (1 + int (length pre)) hit))"
proof -
  have "truthy sr"
    using assms(1) by (rule getitem_truthy)
  moreover have "show_hits 1 (pre @ hit # post) =
      (ls @ fst (show_hit (1 + int (length pre)) hit), snd (show_hit (1 + int (length pre)) hit))"
    unfolding show_hits_append [OF assms(4)] show_hits_stop [OF assms(5)] ..
  ultimately show ?thesis
    using assms(1,2,3) by (simp add: display_search_results_def bind_err_def)
qed

lemma display_raises:
  assumes "py_getitem sr ''hits'' = Inr h" and "py_getitem h ''hits'' = Inr (JArr hits)"
    and "hit \<in> set hits" and "\<And>i. snd (show_hit i hit) \<noteq> None"
  shows "snd (display_search_results sr q) \<noteq> None"
proof -
  have "truthy sr"
    using assms(1) by (rule getitem_truthy)
  moreover have "snd (show_hits 1 hits) \<noteq> None"
    using assms(3,4) by (rule show_hits_raises)
  ultimately show ?thesis
    using assms(1,2)
    by (auto simp add: display_search_results_def bind_err_def split: sum.splits prod.splits)
qed

section \<open>The extractor: the item at a position\<close>

lemma read_extractable:
  assumes "read_item lib fb c = Inr d"
  shows "extractable lib c"
proof -
  from assms obtain raw data where c: "c = Some raw"
    and data: "json_loads lib (decode lib raw) = Some data"
    by (auto simp add: read_item_def split: option.splits)
  from assms c data obtain i where i: "derive_id data fb = Inr i"
    by (auto simp add: read_item_def bind_err_def split: sum.splits)
  then have "projectable data"
    by (cases data; cases "map_of (case data of JObj kvs \<Rightarrow> kvs) ''thread''";
        cases "the (map_of (case data of JObj kvs \<Rightarrow> kvs) ''thread'')")
       (auto simp add: derive_id_def bind_err_def or_null_def split: option.splits if_splits)
  with c data show ?thesis
    by (simp add: extractable_def)
qed

lemma iter_dir:
  "is_dir p \<Longrightarrow> iter_jsons_in_path lib p = Inr (map (dir_item lib p) (rglob_json p))"
  by (simp add: iter_jsons_in_path_def)

lemma iter_zip:
  "\<not> is_dir p \<Longrightarrow> lower (suffix p) = ''.zip'' \<Longrightarrow> zip_members p = Some ms \<Longrightarrow>
   iter_jsons_in_path lib p =
     Inr (map (zip_item lib p) (filter (\<lambda>m. endswith (lower (fst m)) ''.json'') ms))"
  by (simp add: iter_jsons_in_path_def)

lemma iter_file:
  "\<not> is_dir p \<Longrightarrow> lower (suffix p) \<noteq> ''.zip'' \<Longrightarrow> is_file p \<Longrightarrow>
   lower (suffix p) = ''.json'' \<Longrightarrow> iter_jsons_in_path lib p = Inr [file_item lib p]"
  by (simp add: iter_jsons_in_path_def)

lemma iter_nth:
  assumes "i < length (visited p)"
  shows "\<exists>evs what fb. iter_jsons_in_path lib p = Inr evs
           \<and> length evs = length (visited p)
           \<and> evs ! i = item_event what (read_item lib fb (visited p ! i))"
proof -
  consider (dir) "is_dir p"
    | (zip) ms where "\<not> is_dir p" "lower (suffix p) = ''.zip''" "zip_members p = Some ms"
    | (single) "\<not> is_dir p" "lower (suffix p) \<noteq> ''.zip''" "is_file p" "lower (suffix p) = ''.json''"
    using assms by (auto simp add: visited_def split: if_splits option.splits)
  then show ?thesis
  proof cases
    case dir
    with assms have i: "i < length (rglob_json p)"
      by (simp add: visited_def)
    with dir have "visited p ! i = file_bytes (rglob_json p ! i)"
      by (simp add: visited_def)
    with i dir show ?thesis
      by (simp add: iter_dir visited_def dir_item_def) blast
  next
    case zip
    let ?ms = "filter (\<lambda>m. endswith (lower (fst m)) ''.json'') ms"
    from zip assms have i: "i < length ?ms"
      by (simp add: visited_def)
    with zip have "visited p ! i = snd (?ms ! i)"
      by (simp add: visited_def)
    with i zip show ?thesis
      by (simp add: iter_zip visited_def zip_item_def) blast
  next
    case single
    with assms have "i = 0" "visited p ! i = read_bytes p"
      by (simp_all add: visited_def)
    with single show ?thesis
      by (simp add: iter_file visited_def file_item_def) blast
  qed
qed

lemma all_extractable_yields:
  assumes "is_dir p \<or> lower (suffix p) \<noteq> ''.zip'' \<or> zip_members p \<noteq> None"
    and "\<forall>c \<in> set (visited p). extractable lib c"
  shows "\<exists>evs. iter_jsons_in_path lib p = Inr evs
           \<and> length (yielded evs) = length (visited p)
           \<and> list_all2 (projects lib) (visited p) (yielded evs)"
proof -
  consider (dir) "is_dir p"
    | (zip) ms where "\<not> is_dir p" "lower (suffix p) = ''.zip''" "zip_members p = Some ms"
    | (single) "\<not> is_dir p" "lower (suffix p) \<noteq> ''.zip''" "is_file p \<and> lower (suffix p) = ''.json''"
    | (other) "\<not> is_dir p" "lower (suffix p) \<noteq> ''.zip''"
        "\<not> (is_file p \<and> lower (suffix p) = ''.json'')"
    using assms(1) by fastforce
  then have "\<exists>evs. iter_jsons_in_path lib p = Inr evs
           \<and> list_all2 (projects lib) (visited p) (yielded evs)"
  proof cases
    case dir
    with assms(2) have "\<forall>f \<in> set (rglob_json p). extractable lib (file_bytes f)"
      by (simp add: visited_def)
    from dir_all_extractable [OF this, of p] dir show ?thesis
      by (simp add: iter_jsons_in_path_def visited_def)
  next
    case zip
    let ?ms = "filter (\<lambda>m. endswith (lower (fst m)) ''.json'') ms"
    from zip assms(2) have "\<forall>m \<in> set ?ms. extractable lib (snd m)"
      by (simp add: visited_def)
    from zip_all_extractable [OF this, of p] zip show ?thesis
      by (simp add: iter_jsons_in_path_def visited_def)
  next
    case single
    with assms(2) have "\<forall>q \<in> set [p]. extractable lib (read_bytes q)"
      by (simp add: visited_def)
    from file_all_extractable [OF this] single show ?thesis
      by (simp add: iter_jsons_in_path_def visited_def)
  next
    case other
    then show ?thesis
      by (auto simp add: iter_jsons_in_path_def visited_def)
  qed
  then show ?thesis
    by (metis list_all2_lengthD)
qed

lemma item_outcome:
  assumes "i < length (visited p)"
  shows "\<exists>evs. iter_jsons_in_path lib p = Inr evs
           \<and> length evs = length (visited p)
           \<and> (if extractable lib (visited p ! i)
                then (\<exists>d. evs ! i = Yield (fst d) (snd d) \<and> projects lib (visited p ! i) d)
                else (\<exists>what e. evs ! i = Print (Lit ''Failed reading '' # what @ [Lit '': '', Exc e])))"
proof -
  from iter_nth [OF assms, of lib] obtain evs what fb where
    evs: "iter_jsons_in_path lib p = Inr evs" "length evs = length (visited p)"
    and at: "evs ! i = item_event what (read_item lib fb (visited p ! i))"
    by blast
  show ?thesis
  proof (cases "extractable lib (visited p ! i)")
    case True
    then obtain j doc where "read_item lib fb (visited p ! i) = Inr (j, doc)"
      and "projects lib (visited p ! i) (j, doc)"
      using extractable_read by blast
    with at have "evs ! i = Yield (fst (j, doc)) (snd (j, doc)) \<and> projects lib (visited p ! i) (j, doc)"
      by (simp add: item_event_def)
    with True evs show ?thesis
      by auto
  next
    case False
    then obtain e where "read_item lib fb (visited p ! i) = Inl e"
      using read_extractable by (cases "read_item lib fb (visited p ! i)") auto
    with at have "evs ! i = Print (Lit ''Failed reading '' # what @ [Lit '': '', Exc e])"
      by (simp add: item_event_def)
    with False evs show ?thesis
      by auto
  qed
qed

section \<open>The result presenter: a hit whose text is a string\<close>

lemma show_hit_text:
  assumes "py_getitem hit ''_score'' = Inr sc" and "py_getitem hit ''_id'' = Inr hid"
    and "py_getitem hit ''_source'' = Inr (JObj src)" and "map_of src ''text'' = Some (JStr text)"
  shows "show_hit i hit =
     ([[Lit ''Result #'', Val (JInt i)],
       [Lit ''Score : '', Val sc],
       [Lit ''ID    : '', Val hid],
       [Lit ''Title : '',
        Val (case map_of src ''title'' of None \<Rightarrow> JStr ''(no title)'' | Some v \<Rightarrow> v)],
       [Lit (''Snippet:'' @ [CHR 0x0A]),
        Val (JStr (if length text > 200 then take 200 text @ ''...'' else text))],
       [Lit ''Author: '',
        Val (case map_of src ''author'' of None \<Rightarrow> JStr ''(no author)'' | Some v \<Rightarrow> v)],
       [Lit ''Published: '',
        Val (case map_of src ''published'' of None \<Rightarrow> JStr ''(no date)'' | Some v \<Rightarrow> v)],
       [Lit ''Language: '',
        Val (case map_of src ''language'' of None \<Rightarrow> JStr ''(no language)'' | Some v \<Rightarrow> v)],
       [Lit ''URL: '',
        Val (case map_of src ''url'' of None \<Rightarrow> JStr ''(no url)'' | Some v \<Rightarrow> v)],
       [Lit ''Categories: '',
        Val (case map_of src ''categories'' of None \<Rightarrow> JStr ''(no categories)'' | Some v \<Rightarrow> v)],
       [Lit (replicate 70 (CHR ''-'') @ [CHR 0x0A])]],
      None)"
proof -
  have "snippet_line hit =
      Inr [Lit (''Snippet:'' @ [CHR 0x0A]),
           Val (JStr (if length text > 200 then take 200 text @ ''...'' else text))]"
    using assms(3,4) by (simp add: snippet_line_def bind_err_def)
  with assms(1,2) field_line_source [OF assms(3)] show ?thesis
    by (simp add: show_hit_def item_line_def bind_err_def)
qed

lemma show_hits_next:
  assumes "show_hit i hit = (hl, None)"
  shows "show_hits i (hit # post) =
     (hl @ fst (show_hits (i + 1) post), snd (show_hits (i + 1) post))"
  using assms by (simp split: prod.splits)

lemma display_with_hit:
  assumes "py_getitem sr ''hits'' = Inr h" and "py_getitem h ''hits'' = Inr (JArr (pre @ hit # post))"
    and "total_hits sr = Inr tot" and "show_hits 1 pre = (ls, None)"
    and "show_hit (1 + int (length pre)) hit = (hl, None)"
  shows "fst (display_search_results sr q) =
     header q tot @ ls @ hl @ fst (show_hits (1 + int (length pre) + 1) post)"
proof -
  have "truthy sr"
    using assms(1) by (rule getitem_truthy)
  moreover have "fst (show_hits 1 (pre @ hit # post)) =
      ls @ hl @ fst (show_hits (1 + int (length pre) + 1) post)"
    unfolding show_hits_append [OF assms(4)] show_hits_next [OF assms(5)] by simp
  ultimately show ?thesis
    using assms(1,2,3)
    by (cases "show_hits 1 (pre @ hit # post)")
       (simp add: display_search_results_def bind_err_def)
qed

section \<open>The claims\<close>

lemmas ex_defs =
  table_lib_def dir_of_def entry_of_def decode_def read_item_def derive_id_def make_doc_def
  bind_err_def item_event_def dir_item_def zip_item_def file_item_def iter_jsons_in_path_def
  name_def

text \<open>
  C1, as the specification states it, fails: the id is not the \<^verbatim>\<open>uuid\<close> field's value
  for every value of the field. In the directory \<^verbatim>\<open>news\<close>, the file \<^verbatim>\<open>a.json\<close> holds
  an object whose \<^verbatim>\<open>uuid\<close> is the empty string and whose thread has the uuid
  \<^verbatim>\<open>t1\<close>; the pair yielded for it has the id \<^verbatim>\<open>t1\<close>.
\<close>

theorem uuid_empty_counterexample:
  \<open>map_of [(''uuid'', JStr ''''), (''thread'', JObj [(''uuid'', JStr ''t1'')])] ''uuid''
     = Some (JStr '''')
   \<and> iter_jsons_in_path
       (table_lib [(''{"uuid": "", "thread": {"uuid": "t1"}}'',
          JObj [(''uuid'', JStr ''''), (''thread'', JObj [(''uuid'', JStr ''t1'')])])])
       (dir_of ''news''
          [entry_of ''news'' ''a.json'' (Some ''{"uuid": "", "thread": {"uuid": "t1"}}'')])
     = Inr [Yield (JStr ''t1'')
             (JObj [(''uuid'', JStr ''t1''), (''title'', JNull), (''text'', JNull),
                    (''author'', JNull), (''published'', JNull), (''language'', JNull),
                    (''sentiment'', JNull), (''categories'', JNull), (''url'', JNull)])]
   \<and> JStr ''t1'' \<noteq> JStr ''''\<close>
  by (simp add: ex_defs)

text \<open>
  C1, amended: for every item of a source (a JSON file of a directory, a JSON member of
  an archive, the single JSON file) that parses to an object with a truthy top-level
  \<^verbatim>\<open>uuid\<close>, the extractor returns, and the pair it yields at the item's position has
  exactly that value as its id, whatever the thread holds and whatever the fallback
  would be; the document carries the same value under \<^verbatim>\<open>uuid\<close>.
\<close>

theorem uuid_takes_priority:
  assumes "i < length (visited p)"
    and "visited p ! i = Some raw"
    and "json_loads lib (decode lib raw) = Some (JObj kvs)"
    and "map_of kvs ''uuid'' = Some v"
    and "truthy v"
  shows "\<exists>evs. iter_jsons_in_path lib p = Inr evs
           \<and> length evs = length (visited p)
           \<and> evs ! i = Yield v (document_of kvs v)
           \<and> py_getitem (document_of kvs v) ''uuid'' = Inr v"
proof -
  from iter_nth [OF assms(1), of lib] obtain evs what fb where
    evs: "iter_jsons_in_path lib p = Inr evs" "length evs = length (visited p)"
    and at: "evs ! i = item_event what (read_item lib fb (visited p ! i))"
    by blast
  have "read_item lib fb (Some raw) = Inr (v, document_of kvs v)"
    using assms(3,4,5) by (simp add: read_item_obj derive_id_uuid make_doc_obj bind_err_def)
  with at assms(2) have "evs ! i = Yield v (document_of kvs v)"
    by (simp add: item_event_def)
  moreover have "py_getitem (document_of kvs v) ''uuid'' = Inr v"
    by (simp add: document_of_def)
  ultimately show ?thesis
    using evs by blast
qed

theorem uuid_takes_priority_witness:
  \<open>\<exists>evs. iter_jsons_in_path
            (table_lib [(''{"title": "x"}'', JObj [(''title'', JStr ''x'')]),
                        (''{"uuid": "u7", "thread": {"uuid": "t1"}}'',
                         JObj [(''uuid'', JStr ''u7''), (''thread'', JObj [(''uuid'', JStr ''t1'')])])])
            (dir_of ''news''
               [entry_of ''news'' ''a.json'' (Some ''{"title": "x"}''),
                entry_of ''news'' ''b.json'' (Some ''{"uuid": "u7", "thread": {"uuid": "t1"}}'')])
          = Inr evs
      \<and> length evs = 2
      \<and> evs ! 1 = Yield (JStr ''u7'')
            (document_of [(''uuid'', JStr ''u7''), (''thread'', JObj [(''uuid'', JStr ''t1'')])]
               (JStr ''u7''))\<close>
proof -
  let ?lib = \<open>table_lib [(''{"title": "x"}'', JObj [(''title'', JStr ''x'')]),
                        (''{"uuid": "u7", "thread": {"uuid": "t1"}}'',
                         JObj [(''uuid'', JStr ''u7''), (''thread'', JObj [(''uuid'', JStr ''t1'')])])]\<close>
  let ?p = \<open>dir_of ''news''
               [entry_of ''news'' ''a.json'' (Some ''{"title": "x"}''),
                entry_of ''news'' ''b.json'' (Some ''{"uuid": "u7", "thread": {"uuid": "t1"}}'')]\<close>
  let ?kvs = "[(''uuid'', JStr ''u7''), (''thread'', JObj [(''uuid'', JStr ''t1'')])]"
  have v: \<open>visited ?p = [Some ''{"title": "x"}'', Some ''{"uuid": "u7", "thread": {"uuid": "t1"}}'']\<close>
    by (simp add: visited_def dir_of_def entry_of_def)
  have 1: "1 < length (visited ?p)"
    unfolding v by simp
  have 2: \<open>visited ?p ! 1 = Some ''{"uuid": "u7", "thread": {"uuid": "t1"}}''\<close>
    unfolding v by simp
  have 3: \<open>json_loads ?lib (decode ?lib ''{"uuid": "u7", "thread": {"uuid": "t1"}}'') = Some (JObj ?kvs)\<close>
    by (simp add: table_lib_def decode_def)
  have 4: "map_of ?kvs ''uuid'' = Some (JStr ''u7'')"
    by simp
  have 5: "truthy (JStr ''u7'')"
    by simp
  from uuid_takes_priority [OF 1 2 3 4 5] obtain evs where
    "iter_jsons_in_path ?lib ?p = Inr evs" "length evs = length (visited ?p)"
    "evs ! 1 = Yield (JStr ''u7'') (document_of ?kvs (JStr ''u7''))"
    by blast
  then show ?thesis
    unfolding v by (intro exI [of _ evs]) simp
qed

text \<open>
  C2, as the specification states it, fails: an item can lack both identifiers and get
  no id at all. The archive \<^verbatim>\<open>data/feed.zip\<close> has the member \<^verbatim>\<open>a.json\<close>, an object
  without \<^verbatim>\<open>uuid\<close> whose \<^verbatim>\<open>thread\<close> is the string \<^verbatim>\<open>t1\<close>. A string has no
  \<^verbatim>\<open>get\<close>; the AttributeError is caught, and the item gives a diagnostic and no pair.
\<close>

theorem thread_string_counterexample:
  \<open>map_of [(''title'', JStr ''x''), (''thread'', JStr ''t1'')] ''uuid'' = None
   \<and> map_of [(''title'', JStr ''x''), (''thread'', JStr ''t1'')] ''thread'' = Some (JStr ''t1'')
   \<and> iter_jsons_in_path
       (table_lib [(''{"title": "x", "thread": "t1"}'',
          JObj [(''title'', JStr ''x''), (''thread'', JStr ''t1'')])])
       \<lparr>path_str = ''data/feed.zip'', stem = ''feed'', suffix = ''.zip'',
        is_dir = False, is_file = True, rglob_json = [],
        zip_members = Some [(''a.json'', Some ''{"title": "x", "thread": "t1"}'')],
        read_bytes = None\<rparr>
     = Inr [Print [Lit ''Failed reading '', Val (JStr ''a.json''), Lit '' in '',
                   Val (JStr ''data/feed.zip''), Lit '': '', Exc AttributeError]]
   \<and> yielded [Print [Lit ''Failed reading '', Val (JStr ''a.json''), Lit '' in '',
                      Val (JStr ''data/feed.zip''), Lit '': '', Exc AttributeError]] = []\<close>
  by (simp add: ex_defs lower_def lower_char_def upper_letters_def lower_letters_def
      endswith_def)

text \<open>
  C2, amended: for every item of a source that parses to an object without \<^verbatim>\<open>uuid\<close>
  whose \<^verbatim>\<open>thread\<close> is missing or is an object without \<^verbatim>\<open>uuid\<close>, the extractor returns and
  yields the item, at its position, under the synthesized id: the directory's name, a
  slash and the file's name for a file of a directory; the archive's stem, a slash and
  the member's name for a JSON member of an archive; the file's own name for a single
  JSON file. The id is never empty, and it is this fixed function of the names, so it
  is the same on every run over the same input.
\<close>

theorem fallback_id:
  assumes "json_loads lib (decode lib raw) = Some (JObj kvs)"
    and "map_of kvs ''uuid'' = None"
    and "map_of kvs ''thread'' = None \<or>
         (\<exists>t. map_of kvs ''thread'' = Some (JObj t) \<and> map_of t ''uuid'' = None)"
  shows "(is_dir p \<and> i < length (rglob_json p) \<and> file_bytes (rglob_json p ! i) = Some raw \<longrightarrow>
            (\<exists>evs. iter_jsons_in_path lib p = Inr evs
               \<and> evs ! i = Yield (JStr (name p @ ''/'' @ file_name (rglob_json p ! i)))
                    (document_of kvs (JStr (name p @ ''/'' @ file_name (rglob_json p ! i)))))
            \<and> name p @ ''/'' @ file_name (rglob_json p ! i) \<noteq> [])
       \<and> (\<not> is_dir p \<and> lower (suffix p) = ''.zip'' \<and> zip_members p = Some ms
            \<and> i < length (filter (\<lambda>m. endswith (lower (fst m)) ''.json'') ms)
            \<and> snd (filter (\<lambda>m. endswith (lower (fst m)) ''.json'') ms ! i) = Some raw \<longrightarrow>
            (\<exists>evs. iter_jsons_in_path lib p = Inr evs
               \<and> evs ! i =
                    Yield (JStr (stem p @ ''/'' @
                             fst (filter (\<lambda>m. endswith (lower (fst m)) ''.json'') ms ! i)))
                      (document_of kvs
                         (JStr (stem p @ ''/'' @
                                  fst (filter (\<lambda>m. endswith (lower (fst m)) ''.json'') ms ! i)))))
            \<and> stem p @ ''/'' @ fst (filter (\<lambda>m. endswith (lower (fst m)) ''.json'') ms ! i) \<noteq> [])
       \<and> (\<not> is_dir p \<and> lower (suffix p) \<noteq> ''.zip'' \<and> is_file p \<and> lower (suffix p) = ''.json''
            \<and> read_bytes p = Some raw \<longrightarrow>
            iter_jsons_in_path lib p
              = Inr [Yield (JStr (name p)) (document_of kvs (JStr (name p)))]
            \<and> name p \<noteq> [])"
proof -
  note fb = read_item_fallback [OF assms]
  have d: "is_dir p \<Longrightarrow> i < length (rglob_json p) \<Longrightarrow> file_bytes (rglob_json p ! i) = Some raw \<Longrightarrow>
      \<exists>evs. iter_jsons_in_path lib p = Inr evs
        \<and> evs ! i = Yield (JStr (name p @ ''/'' @ file_name (rglob_json p ! i)))
             (document_of kvs (JStr (name p @ ''/'' @ file_name (rglob_json p ! i))))"
    using fb by (simp add: iter_dir dir_item_def item_event_def)
  have z: "\<not> is_dir p \<Longrightarrow> lower (suffix p) = ''.zip'' \<Longrightarrow> zip_members p = Some ms \<Longrightarrow>
      i < length (filter (\<lambda>m. endswith (lower (fst m)) ''.json'') ms) \<Longrightarrow>
      snd (filter (\<lambda>m. endswith (lower (fst m)) ''.json'') ms ! i) = Some raw \<Longrightarrow>
      \<exists>evs. iter_jsons_in_path lib p = Inr evs
        \<and> evs ! i =
             Yield (JStr (stem p @ ''/'' @
                      fst (filter (\<lambda>m. endswith (lower (fst m)) ''.json'') ms ! i)))
               (document_of kvs
                  (JStr (stem p @ ''/'' @
                           fst (filter (\<lambda>m. endswith (lower (fst m)) ''.json'') ms ! i))))"
    using fb by (simp add: iter_zip zip_item_def item_event_def)
  have s: "\<not> is_dir p \<Longrightarrow> lower (suffix p) \<noteq> ''.zip'' \<Longrightarrow> is_file p \<Longrightarrow>
      lower (suffix p) = ''.json'' \<Longrightarrow> read_bytes p = Some raw \<Longrightarrow>
      iter_jsons_in_path lib p = Inr [Yield (JStr (name p)) (document_of kvs (JStr (name p)))]"
    using fb by (simp add: iter_file file_item_def item_event_def)
  have n: "lower (suffix p) = ''.json'' \<Longrightarrow> name p \<noteq> []"
    using lower_json_nonempty [of "suffix p"] by (simp add: name_def)
  from d z s n show ?thesis
    by simp
qed

theorem fallback_id_witness:
  \<open>(\<exists>evs. iter_jsons_in_path
             (table_lib [(''{"title": "x", "thread": {}}'',
                JObj [(''title'', JStr ''x''), (''thread'', JObj [])])])
             (dir_of ''news'' [entry_of ''news'' ''a.json'' (Some ''{"title": "x", "thread": {}}'')])
           = Inr evs
       \<and> evs ! 0 = Yield (JStr ''news/a.json'')
             (document_of [(''title'', JStr ''x''), (''thread'', JObj [])] (JStr ''news/a.json'')))
   \<and> (\<exists>evs. iter_jsons_in_path
             (table_lib [(''{"title": "x", "thread": {}}'',
                JObj [(''title'', JStr ''x''), (''thread'', JObj [])])])
             \<lparr>path_str = ''data/feed.zip'', stem = ''feed'', suffix = ''.zip'',
              is_dir = False, is_file = True, rglob_json = [],
              zip_members = Some [(''readme.txt'', Some ''hello''),
                                  (''m.json'', Some ''{"title": "x", "thread": {}}'')],
              read_bytes = None\<rparr>
           = Inr evs
       \<and> evs ! 0 = Yield (JStr ''feed/m.json'')
             (document_of [(''title'', JStr ''x''), (''thread'', JObj [])] (JStr ''feed/m.json'')))
   \<and> iter_jsons_in_path
         (table_lib [(''{"title": "x", "thread": {}}'',
            JObj [(''title'', JStr ''x''), (''thread'', JObj [])])])
         \<lparr>path_str = ''data/b.json'', stem = ''b'', suffix = ''.json'',
          is_dir = False, is_file = True, rglob_json = [], zip_members = None,
          read_bytes = Some ''{"title": "x", "thread": {}}''\<rparr>
       = Inr [Yield (JStr ''b.json'')
                (document_of [(''title'', JStr ''x''), (''thread'', JObj [])] (JStr ''b.json''))]\<close>
proof -
  let ?raw = \<open>''{"title": "x", "thread": {}}''\<close>
  let ?kvs = "[(''title'', JStr ''x''), (''thread'', JObj [])]"
  let ?lib = "table_lib [(?raw, JObj ?kvs)]"
  let ?d = "dir_of ''news'' [entry_of ''news'' ''a.json'' (Some ?raw)]"
  let ?z = "\<lparr>path_str = ''data/feed.zip'', stem = ''feed'', suffix = ''.zip'',
              is_dir = False, is_file = True, rglob_json = [],
              zip_members = Some [(''readme.txt'', Some ''hello''), (''m.json'', Some ?raw)],
              read_bytes = None\<rparr>"
  let ?f = "\<lparr>path_str = ''data/b.json'', stem = ''b'', suffix = ''.json'',
          is_dir = False, is_file = True, rglob_json = [], zip_members = None,
          read_bytes = Some ?raw\<rparr>"
  have 1: "json_loads ?lib (decode ?lib ?raw) = Some (JObj ?kvs)"
    by (simp add: table_lib_def decode_def)
  have 2: "map_of ?kvs ''uuid'' = None"
    by simp
  have 3: "map_of ?kvs ''thread'' = None \<or>
      (\<exists>t. map_of ?kvs ''thread'' = Some (JObj t) \<and> map_of t ''uuid'' = None)"
    by simp
  have low: "lower ''.zip'' = ''.zip''" "lower ''.json'' = ''.json''"
    "lower ''m.json'' = ''m.json''" "lower ''readme.txt'' = ''readme.txt''"
    by (simp_all add: lower_def lower_char_def upper_letters_def lower_letters_def)
  have flt: "filter (\<lambda>m. endswith (lower (fst m)) ''.json'')
      [(''readme.txt'', Some ''hello''), (''m.json'', Some ?raw)] = [(''m.json'', Some ?raw)]"
    by (simp add: low endswith_def)
  from fallback_id [OF 1 2 3, of ?d 0] have a:
    "\<exists>evs. iter_jsons_in_path ?lib ?d = Inr evs
       \<and> evs ! 0 = Yield (JStr ''news/a.json'') (document_of ?kvs (JStr ''news/a.json''))"
    by (simp add: dir_of_def entry_of_def name_def)
  from fallback_id [OF 1 2 3, of ?z 0 "[(''readme.txt'', Some ''hello''), (''m.json'', Some ?raw)]",
      unfolded flt]
  have b:
    "\<exists>evs. iter_jsons_in_path ?lib ?z = Inr evs
       \<and> evs ! 0 = Yield (JStr ''feed/m.json'') (document_of ?kvs (JStr ''feed/m.json''))"
    by (simp add: low)
  from fallback_id [OF 1 2 3, of ?f] have c:
    "iter_jsons_in_path ?lib ?f = Inr [Yield (JStr ''b.json'') (document_of ?kvs (JStr ''b.json''))]"
    by (simp add: low name_def)
  from a b c show ?thesis
    by blast
qed

text \<open>
  C3, as the specification states it, fails: a well-formed JSON item need not give a
  pair. The single file \<^verbatim>\<open>data/list.json\<close> holds the JSON text \<^verbatim>\<open>[]\<close>, which parses (to
  the empty list); a list has no \<^verbatim>\<open>get\<close>, the \<^verbatim>\<open>except\<close> clause catches the
  AttributeError, and the one item gives no pair and one diagnostic.
\<close>

theorem wellformed_list_counterexample:
  \<open>json_loads (table_lib [(''[]'', JArr [])]) (decode (table_lib [(''[]'', JArr [])]) ''[]'')
     = Some (JArr [])
   \<and> iter_jsons_in_path (table_lib [(''[]'', JArr [])])
       \<lparr>path_str = ''data/list.json'', stem = ''list'', suffix = ''.json'',
        is_dir = False, is_file = True, rglob_json = [], zip_members = None,
        read_bytes = Some ''[]''\<rparr>
     = Inr [Print [Lit ''Failed reading '', Val (JStr ''data/list.json''), Lit '': '',
                   Exc AttributeError]]
   \<and> yielded [Print [Lit ''Failed reading '', Val (JStr ''data/list.json''), Lit '': '',
                      Exc AttributeError]] = []\<close>
  by (simp add: ex_defs lower_def lower_char_def upper_letters_def lower_letters_def)

text \<open>
  C3, amended: for a source that is a directory, an archive that opens, a single JSON
  file or any other path, when every item (the JSON files of the directory, the JSON
  members of the archive, the single file) reads and parses to an object whose id
  derivation does not fail (its \<^verbatim>\<open>uuid\<close> is truthy, or its \<^verbatim>\<open>thread\<close> is missing or an
  object), extraction returns and yields exactly one pair per item, in order; the
  document of each pair holds, for each of the eight optional fields, the source object's
  value verbatim when the key is there and the null marker when it is not. In any source,
  the item at each position gives exactly one event there: a pair that is its projection
  when it is such an item, and otherwise (unreadable, unparseable, or well-formed JSON
  that is not such an object) no pair but a diagnostic.
\<close>

theorem extraction_projects_every_item:
  "((is_dir p \<or> lower (suffix p) \<noteq> ''.zip'' \<or> zip_members p \<noteq> None)
      \<and> (\<forall>c \<in> set (visited p). extractable lib c) \<longrightarrow>
      (\<exists>evs. iter_jsons_in_path lib p = Inr evs
         \<and> length (yielded evs) = length (visited p)
         \<and> list_all2 (projects lib) (visited p) (yielded evs)))
   \<and> (i < length (visited p) \<longrightarrow>
      (\<exists>evs. iter_jsons_in_path lib p = Inr evs
         \<and> length evs = length (visited p)
         \<and> (if extractable lib (visited p ! i)
              then (\<exists>d. evs ! i = Yield (fst d) (snd d) \<and> projects lib (visited p ! i) d)
              else (\<exists>what e. evs ! i =
                      Print (Lit ''Failed reading '' # what @ [Lit '': '', Exc e])))))"
  using all_extractable_yields [of p lib] item_outcome [of i p lib]
  by blast

theorem extraction_projects_every_item_witness:
  \<open>(\<exists>evs. iter_jsons_in_path
            (table_lib [(''{"title": "x"}'', JObj [(''title'', JStr ''x'')]),
                        (''{"uuid": "u7"}'', JObj [(''uuid'', JStr ''u7'')])])
            (dir_of ''news'' [entry_of ''news'' ''a.json'' (Some ''{"title": "x"}''),
                              entry_of ''news'' ''b.json'' (Some ''{"uuid": "u7"}'')]) = Inr evs
      \<and> length (yielded evs) = 2
      \<and> list_all2
           (projects (table_lib [(''{"title": "x"}'', JObj [(''title'', JStr ''x'')]),
                                 (''{"uuid": "u7"}'', JObj [(''uuid'', JStr ''u7'')])]))
           [Some ''{"title": "x"}'', Some ''{"uuid": "u7"}''] (yielded evs))
   \<and> (\<exists>evs what e. iter_jsons_in_path
            (table_lib [(''{"title": "x"}'', JObj [(''title'', JStr ''x'')]),
                        (''"x"'', JStr ''x'')])
            (dir_of ''news'' [entry_of ''news'' ''a.json'' (Some ''{"title": "x"}''),
                              entry_of ''news'' ''b.json'' (Some ''"x"'')]) = Inr evs
      \<and> length evs = 2
      \<and> evs ! 1 = Print (Lit ''Failed reading '' # what @ [Lit '': '', Exc e]))\<close>
proof -
  let ?lib = \<open>table_lib [(''{"title": "x"}'', JObj [(''title'', JStr ''x'')]),
                        (''{"uuid": "u7"}'', JObj [(''uuid'', JStr ''u7'')])]\<close>
  let ?p = \<open>dir_of ''news'' [entry_of ''news'' ''a.json'' (Some ''{"title": "x"}''),
                            entry_of ''news'' ''b.json'' (Some ''{"uuid": "u7"}'')]\<close>
  let ?lib' = \<open>table_lib [(''{"title": "x"}'', JObj [(''title'', JStr ''x'')]),
                        (''"x"'', JStr ''x'')]\<close>
  let ?p' = \<open>dir_of ''news'' [entry_of ''news'' ''a.json'' (Some ''{"title": "x"}''),
                            entry_of ''news'' ''b.json'' (Some ''"x"'')]\<close>
  have v: \<open>visited ?p = [Some ''{"title": "x"}'', Some ''{"uuid": "u7"}'']\<close>
    by (simp add: visited_def dir_of_def entry_of_def)
  have a: "is_dir ?p \<or> lower (suffix ?p) \<noteq> ''.zip'' \<or> zip_members ?p \<noteq> None"
    by (simp add: dir_of_def)
  have b: "\<forall>c \<in> set (visited ?p). extractable ?lib c"
    unfolding v by (simp add: extractable_def table_lib_def decode_def or_null_def)
  from extraction_projects_every_item [of ?p ?lib 0] a b
  have first: "\<exists>evs. iter_jsons_in_path ?lib ?p = Inr evs
      \<and> length (yielded evs) = length (visited ?p)
      \<and> list_all2 (projects ?lib) (visited ?p) (yielded evs)"
    by blast
  have v': \<open>visited ?p' = [Some ''{"title": "x"}'', Some ''"x"'']\<close>
    by (simp add: visited_def dir_of_def entry_of_def)
  have i: "1 < length (visited ?p')"
    unfolding v' by simp
  have n: "\<not> extractable ?lib' (visited ?p' ! 1)"
    unfolding v' by (simp add: extractable_def table_lib_def decode_def)
  from extraction_projects_every_item [of ?p' ?lib' 1] i n
  have second: "\<exists>evs what e. iter_jsons_in_path ?lib' ?p' = Inr evs
      \<and> length evs = length (visited ?p')
      \<and> evs ! 1 = Print (Lit ''Failed reading '' # what @ [Lit '': '', Exc e])"
    by auto
  from first second show ?thesis
    unfolding v v' by (simp add: numeral_2_eq_2)
qed

text \<open>
  C5, as the specification states it, fails, for the reason C3 does: an item that is
  valid JSON need not give a pair. In the directory \<^verbatim>\<open>news\<close>, \<^verbatim>\<open>a.json\<close> holds an object
  whose \<^verbatim>\<open>thread\<close> is null, \<^verbatim>\<open>b.json\<close> is corrupt and \<^verbatim>\<open>c.json\<close> holds an object with a
  title. Two of the three items are valid JSON and one is corrupt, yet extraction yields
  one pair and prints two diagnostics.
\<close>

theorem valid_items_counterexample:
  \<open>json_loads (table_lib [(''{"thread": null}'', JObj [(''thread'', JNull)]),
                           (''{"title": "x"}'', JObj [(''title'', JStr ''x'')])])
     (decode (table_lib [(''{"thread": null}'', JObj [(''thread'', JNull)]),
                         (''{"title": "x"}'', JObj [(''title'', JStr ''x'')])])
        ''{"thread": null}'')
     = Some (JObj [(''thread'', JNull)])
   \<and> iter_jsons_in_path
       (table_lib [(''{"thread": null}'', JObj [(''thread'', JNull)]),
                   (''{"title": "x"}'', JObj [(''title'', JStr ''x'')])])
       (dir_of ''news'' [entry_of ''news'' ''a.json'' (Some ''{"thread": null}''),
                         entry_of ''news'' ''b.json'' (Some ''{"title": ''),
                         entry_of ''news'' ''c.json'' (Some ''{"title": "x"}'')])
     = Inr [Print [Lit ''Failed reading '', Val (JStr ''news/a.json''), Lit '': '',
                   Exc AttributeError],
            Print [Lit ''Failed reading '', Val (JStr ''news/b.json''), Lit '': '',
                   Exc JSONDecodeError],
            Yield (JStr ''news/c.json'')
              (JObj [(''uuid'', JStr ''news/c.json''), (''title'', JStr ''x''), (''text'', JNull),
                     (''author'', JNull), (''published'', JNull), (''language'', JNull),
                     (''sentiment'', JNull), (''categories'', JNull), (''url'', JNull)])]\<close>
  by (simp add: ex_defs)

text \<open>
  C5, amended: in a directory of three JSON items of which one is corrupt (it reads
  but does not parse) or cannot be read, and the other two read and parse to objects
  whose id derivation does not fail (a truthy \<^verbatim>\<open>uuid\<close>, or a \<^verbatim>\<open>thread\<close> that is missing or
  an object), extraction returns without raising, yields exactly two pairs, the
  projections of the two other items in order, wherever the failing item stands, and
  prints exactly one diagnostic, which names the failing item.
\<close>

theorem corrupt_item_is_skipped:
  assumes "is_dir p"
    and "rglob_json p = pre @ [f] @ post"
    and "length pre + length post = 2"
    and "corrupt lib (file_bytes f) \<or> file_bytes f = None"
    and "\<forall>g \<in> set (pre @ post). extractable lib (file_bytes g)"
  shows "\<exists>evs. iter_jsons_in_path lib p = Inr evs
           \<and> length (yielded evs) = 2
           \<and> list_all2 (projects lib) (map file_bytes (pre @ post)) (yielded evs)
           \<and> printed evs =
               [[Lit ''Failed reading '', Val (JStr (file_str f)), Lit '': '',
                 Exc (if file_bytes f = None then OSError else JSONDecodeError)]]"
proof -
  let ?e = "if file_bytes f = None then OSError else JSONDecodeError"
  let ?evs = "map (dir_item lib p) pre @ [dir_item lib p f] @ map (dir_item lib p) post"
  have evs: "iter_jsons_in_path lib p = Inr ?evs"
    using assms(1,2) by (simp add: iter_jsons_in_path_def)
  have "read_item lib (name p @ ''/'' @ file_name f) (file_bytes f) = Inl ?e"
    using assms(4) by (auto simp add: corrupt_read read_item_def corrupt_def)
  then have f: "dir_item lib p f =
      Print [Lit ''Failed reading '', Val (JStr (file_str f)), Lit '': '', Exc ?e]"
    by (rule dir_failing_item)
  have pre: "list_all2 (projects lib) (map file_bytes pre) (yielded (map (dir_item lib p) pre))
      \<and> printed (map (dir_item lib p) pre) = []"
    using assms(5) by (intro dir_all_extractable) simp
  have post: "list_all2 (projects lib) (map file_bytes post) (yielded (map (dir_item lib p) post))
      \<and> printed (map (dir_item lib p) post) = []"
    using assms(5) by (intro dir_all_extractable) simp
  have y: "yielded ?evs = yielded (map (dir_item lib p) pre) @ yielded (map (dir_item lib p) post)"
    by (simp add: yielded_append f)
  have all2: "list_all2 (projects lib) (map file_bytes (pre @ post)) (yielded ?evs)"
    unfolding y using pre post by (simp add: list_all2_appendI)
  then have "length (yielded ?evs) = length (pre @ post)"
    by (metis list_all2_lengthD length_map)
  with assms(3) have len: "length (yielded ?evs) = 2"
    by simp
  have pr: "printed ?evs =
      [[Lit ''Failed reading '', Val (JStr (file_str f)), Lit '': '', Exc ?e]]"
    using pre post by (simp add: printed_append f)
  from evs len all2 pr show ?thesis
    by blast
qed

theorem corrupt_item_is_skipped_witness:
  \<open>\<exists>evs. iter_jsons_in_path
            (table_lib [(''{"uuid": "u7"}'', JObj [(''uuid'', JStr ''u7'')]),
                        (''{"title": "x"}'', JObj [(''title'', JStr ''x'')])])
            (dir_of ''news'' [entry_of ''news'' ''a.json'' (Some ''{"uuid": "u7"}''),
                              entry_of ''news'' ''b.json'' (Some ''{"title": ''),
                              entry_of ''news'' ''c.json'' (Some ''{"title": "x"}'')]) = Inr evs
      \<and> length (yielded evs) = 2
      \<and> list_all2
           (projects (table_lib [(''{"uuid": "u7"}'', JObj [(''uuid'', JStr ''u7'')]),
                                 (''{"title": "x"}'', JObj [(''title'', JStr ''x'')])]))
           [Some ''{"uuid": "u7"}'', Some ''{"title": "x"}''] (yielded evs)
      \<and> printed evs =
            [[Lit ''Failed reading '', Val (JStr ''news/b.json''), Lit '': '',
              Exc JSONDecodeError]]\<close>
proof -
  let ?lib = \<open>table_lib [(''{"uuid": "u7"}'', JObj [(''uuid'', JStr ''u7'')]),
                        (''{"title": "x"}'', JObj [(''title'', JStr ''x'')])]\<close>
  let ?a = \<open>entry_of ''news'' ''a.json'' (Some ''{"uuid": "u7"}'')\<close>
  let ?b = \<open>entry_of ''news'' ''b.json'' (Some ''{"title": '')\<close>
  let ?c = \<open>entry_of ''news'' ''c.json'' (Some ''{"title": "x"}'')\<close>
  let ?p = "dir_of ''news'' [?a, ?b, ?c]"
  have 1: "is_dir ?p"
    by (simp add: dir_of_def)
  have 2: "rglob_json ?p = [?a] @ [?b] @ [?c]"
    by (simp add: dir_of_def)
  have 3: "length [?a] + length [?c] = 2"
    by simp
  have 4: "corrupt ?lib (file_bytes ?b) \<or> file_bytes ?b = None"
    by (simp add: corrupt_def entry_of_def table_lib_def decode_def)
  have 5: "\<forall>g \<in> set ([?a] @ [?c]). extractable ?lib (file_bytes g)"
    by (simp add: extractable_def entry_of_def table_lib_def decode_def or_null_def)
  from corrupt_item_is_skipped [OF 1 2 3 4 5] show ?thesis
    by (simp add: entry_of_def)
qed

text \<open>
  C4: against a service that accepts every submission, the loader started on a finite
  stream returns the length of the stream, and the submissions it has made, laid end to
  end, are the actions of the stream's pairs in order (whatever the batch size, positive
  or not). For a batch size \<open>B \<ge> 1\<close> and a stream of \<open>2B + 1\<close> pairs it makes exactly
  three submissions, of the first \<open>B\<close> pairs, of the next \<open>B\<close> and of the last one, and
  returns \<open>2B + 1\<close>.
\<close>

theorem loader_batches:
  "(\<exists>received. bulk_index accepting [] idx docs bs = Inr (int (length docs), received)
       \<and> concat received = map (make_action idx) docs)
   \<and> (1 \<le> B \<and> length docs = 2 * B + 1 \<longrightarrow>
        bulk_index accepting [] idx docs (int B) =
          Inr (int (2 * B + 1),
               [map (make_action idx) (take B docs),
                map (make_action idx) (take B (drop B docs)),
                map (make_action idx) (drop (2 * B) docs)])
        \<and> length (map (make_action idx) (take B docs)) = B
        \<and> length (map (make_action idx) (take B (drop B docs))) = B
        \<and> length (map (make_action idx) (drop (2 * B) docs)) = 1)"
  using bulk_index_general [of idx docs bs] bulk_index_three [of B docs idx]
  by auto

theorem loader_batches_witness:
  "bulk_index accepting [] INDEX_NAME
     [(JStr ''a'', JObj []), (JStr ''b'', JObj []), (JStr ''c'', JObj []),
      (JStr ''d'', JObj []), (JStr ''e'', JObj [])] 2
   = Inr (5, [[make_action INDEX_NAME (JStr ''a'', JObj []),
               make_action INDEX_NAME (JStr ''b'', JObj [])],
              [make_action INDEX_NAME (JStr ''c'', JObj []),
               make_action INDEX_NAME (JStr ''d'', JObj [])],
              [make_action INDEX_NAME (JStr ''e'', JObj [])]])"
  using loader_batches
    [of INDEX_NAME
        "[(JStr ''a'', JObj []), (JStr ''b'', JObj []), (JStr ''c'', JObj []),
          (JStr ''d'', JObj []), (JStr ''e'', JObj [])]" 0 2]
  by (simp add: numeral_2_eq_2)

text \<open>
  C6: when the client's search call raises, the search operation prints one
  diagnostic carrying the exception and returns null; when the call answers, the answer
  is returned and nothing is printed. Either way the operation returns.
\<close>

theorem search_failure_returns_null:
  "(es_search index_name (query_body query_text) size_n = Inl e \<longrightarrow>
      search_boolean_es es_search query_text index_name size_n =
        (JNull, [[Lit ''Error querying Elasticsearch: '', Exc e]]))
   \<and> (es_search index_name (query_body query_text) size_n = Inr res \<longrightarrow>
      search_boolean_es es_search query_text index_name size_n = (res, []))"
proof (cases "es_search index_name (query_body query_text) size_n")
  case (Inl e')
  then show ?thesis
    by (simp add: search_boolean_es_def)
next
  case (Inr res')
  then show ?thesis
    by (simp add: search_boolean_es_def)
qed

theorem search_failure_returns_null_witness:
  "search_boolean_es (\<lambda>i b n. Inl TransportError) ''title:election'' INDEX_NAME
     DEFAULT_SEARCH_SIZE
   = (JNull, [[Lit ''Error querying Elasticsearch: '', Exc TransportError]])
   \<and> search_boolean_es (\<lambda>i b n. Inr (JObj [(''hits'', JObj [])])) ''title:election''
       INDEX_NAME DEFAULT_SEARCH_SIZE
   = (JObj [(''hits'', JObj [])], [])"
  using search_failure_returns_null
    [of "\<lambda>i b n. Inl TransportError" INDEX_NAME "''title:election''" DEFAULT_SEARCH_SIZE
        TransportError]
    search_failure_returns_null
    [of "\<lambda>i b n. Inr (JObj [(''hits'', JObj [])])" INDEX_NAME "''title:election''"
        DEFAULT_SEARCH_SIZE _ "JObj [(''hits'', JObj [])]"]
  by simp

text \<open>
  C7: for a text that is a string, the snippet is the first 200 characters followed by
  three dots when the text is longer than 200 characters (203 characters in all), and
  the whole text with nothing added when it is not; the cut is at the 200th character
  whatever stands there. For a hit with a score, an id and a source whose text is a
  string, the presenter's run for the hit prints eleven lines without raising, the fifth
  of them that snippet; and in the report of a result whose earlier hits print without
  error, the fifth line of the hit's block, after the four header lines and the earlier
  hits' lines, is that snippet.
\<close>

theorem snippet_truncates:
  "(length tx > 200 \<longrightarrow>
      snippet_of (JStr tx) = Inr (take 200 tx @ ''...'')
      \<and> length (take 200 tx @ ''...'') = 203)
   \<and> (length tx \<le> 200 \<longrightarrow> snippet_of (JStr tx) = Inr tx)
   \<and> (py_getitem hit ''_score'' = Inr sc \<and> py_getitem hit ''_id'' = Inr hid
        \<and> py_getitem hit ''_source'' = Inr (JObj src) \<and> map_of src ''text'' = Some (JStr tx) \<longrightarrow>
        snd (show_hit i hit) = None
        \<and> length (fst (show_hit i hit)) = 11
        \<and> fst (show_hit i hit) ! 4 =
            [Lit (''Snippet:'' @ [CHR 0x0A]),
             Val (JStr (if length tx > 200 then take 200 tx @ ''...'' else tx))]
        \<and> (py_getitem sr ''hits'' = Inr h \<and> py_getitem h ''hits'' = Inr (JArr (pre @ hit # post))
             \<and> total_hits sr = Inr tot \<and> show_hits 1 pre = (ls, None) \<longrightarrow>
             take (4 + length ls + 11) (fst (display_search_results sr q)) =
               header q tot @ ls @ fst (show_hit (1 + int (length pre)) hit)
             \<and> fst (display_search_results sr q) ! (4 + length ls + 4) =
                 [Lit (''Snippet:'' @ [CHR 0x0A]),
                  Val (JStr (if length tx > 200 then take 200 tx @ ''...'' else tx))]))"
proof -
  let ?line = "[Lit (''Snippet:'' @ [CHR 0x0A]),
      Val (JStr (if length tx > 200 then take 200 tx @ ''...'' else tx))]"
  have long: "length tx > 200 \<Longrightarrow> snippet_of (JStr tx) = Inr (take 200 tx @ ''...'')"
    by simp
  have len: "length tx > 200 \<Longrightarrow> length (take 200 tx @ ''...'') = 203"
    by simp
  have short: "length tx \<le> 200 \<Longrightarrow> snippet_of (JStr tx) = Inr tx"
    by simp
  have shown: "snd (show_hit j hit) = None \<and> length (fst (show_hit j hit)) = 11
      \<and> fst (show_hit j hit) ! 4 = ?line"
    if "py_getitem hit ''_score'' = Inr sc" "py_getitem hit ''_id'' = Inr hid"
      "py_getitem hit ''_source'' = Inr (JObj src)" "map_of src ''text'' = Some (JStr tx)"
    for j
    unfolding show_hit_text [OF that] by simp
  have report: "take (4 + length ls + 11) (fst (display_search_results sr q)) =
        header q tot @ ls @ fst (show_hit (1 + int (length pre)) hit)
      \<and> fst (display_search_results sr q) ! (4 + length ls + 4) = ?line"
    if hit: "py_getitem hit ''_score'' = Inr sc" "py_getitem hit ''_id'' = Inr hid"
      "py_getitem hit ''_source'' = Inr (JObj src)" "map_of src ''text'' = Some (JStr tx)"
    and res: "py_getitem sr ''hits'' = Inr h" "py_getitem h ''hits'' = Inr (JArr (pre @ hit # post))"
      "total_hits sr = Inr tot" "show_hits 1 pre = (ls, None)"
  proof -
    let ?k = "1 + int (length pre)"
    let ?hl = "fst (show_hit ?k hit)"
    from shown [OF hit, of ?k] have ok: "show_hit ?k hit = (?hl, None)"
      and l: "length ?hl = 11" and at: "?hl ! 4 = ?line"
      by (simp_all add: prod_eq_iff)
    from display_with_hit [OF res ok, of q] have d: "fst (display_search_results sr q) =
        header q tot @ ls @ ?hl @ fst (show_hits (?k + 1) post)"
      .
    have "take (4 + length ls + 11) (fst (display_search_results sr q)) = header q tot @ ls @ ?hl"
      unfolding d using l by (simp add: length_header)
    moreover have "fst (display_search_results sr q) ! (4 + length ls + 4) = ?hl ! 4"
      unfolding d using l by (simp add: nth_append length_header)
    ultimately show ?thesis
      using at by simp
  qed
  from long len short shown report show ?thesis
    by blast
qed

theorem snippet_truncates_witness:
  "snippet_of (JStr (replicate 250 (CHR ''a''))) = Inr (replicate 200 (CHR ''a'') @ ''...'')
   \<and> snippet_of (JStr (replicate 150 (CHR ''a''))) = Inr (replicate 150 (CHR ''a''))
   \<and> fst (display_search_results
        (result_of (JInt 1)
           [hit_of (JStr ''u7'') (JObj [(''text'', JStr (replicate 250 (CHR ''a'')))])]) ''q'') ! 8
       = [Lit (''Snippet:'' @ [CHR 0x0A]), Val (JStr (replicate 200 (CHR ''a'') @ ''...''))]
   \<and> fst (display_search_results
        (result_of (JInt 1)
           [hit_of (JStr ''u7'') (JObj [(''text'', JStr (replicate 150 (CHR ''a'')))])]) ''q'') ! 8
       = [Lit (''Snippet:'' @ [CHR 0x0A]), Val (JStr (replicate 150 (CHR ''a'')))]"
proof -
  have *: "fst (display_search_results
        (result_of (JInt 1) [hit_of (JStr ''u7'') (JObj [(''text'', JStr t)])]) ''q'') ! 8
      = [Lit (''Snippet:'' @ [CHR 0x0A]),
         Val (JStr (if length t > 200 then take 200 t @ ''...'' else t))]" for t
  proof -
    let ?hit = "hit_of (JStr ''u7'') (JObj [(''text'', JStr t)])"
    let ?sr = "result_of (JInt 1) [?hit]"
    have 1: "py_getitem ?hit ''_score'' = Inr (JFloat (Finite 3 (- 1)))"
      and 2: "py_getitem ?hit ''_id'' = Inr (JStr ''u7'')"
      and 3: "py_getitem ?hit ''_source'' = Inr (JObj [(''text'', JStr t)])"
      by (simp_all add: hit_of_def)
    have 4: "map_of [(''text'', JStr t)] ''text'' = Some (JStr t)"
      by simp
    have 5: "py_getitem ?sr ''hits'' = Inr (JObj [(''total'', JInt 1), (''hits'', JArr [?hit])])"
      by (simp add: result_of_def)
    have 6: "py_getitem (JObj [(''total'', JInt 1), (''hits'', JArr [?hit])]) ''hits''
        = Inr (JArr ([] @ ?hit # []))"
      by simp
    have 7: "total_hits ?sr = Inr (JInt 1)"
      by (simp add: total_hits_def hits_total_def result_of_def bind_err_def)
    have 8: "show_hits 1 [] = ([], None)"
      by simp
    from snippet_truncates
      [where tx = t and hit = ?hit and sc = "JFloat (Finite 3 (- 1))" and hid = "JStr ''u7''"
         and src = "[(''text'', JStr t)]" and i = 1 and sr = ?sr
         and h = "JObj [(''total'', JInt 1), (''hits'', JArr [?hit])]"
         and pre = "[]" and post = "[]" and tot = "JInt 1" and ls = "[]" and q = "''q''"]
      1 2 3 4 5 6 7 8
    show ?thesis
      by simp
  qed
  from snippet_truncates [of "replicate 250 (CHR ''a'')"] snippet_truncates [of "replicate 150 (CHR ''a'')"]
    * [of "replicate 250 (CHR ''a'')"] * [of "replicate 150 (CHR ''a'')"]
  show ?thesis
    by simp
qed

text \<open>
  C8 does not hold of the code. The extractor's document for the source object with only
  a text has every other field under its key with the value null; for a hit with that
  source the presenter finds each key, so no placeholder is used, and it prints the null
  value itself (Python writes it \<^verbatim>\<open>None\<close>) for title, author, published, language, url
  and categories.
\<close>

theorem null_fields_print_none:
  "make_doc (JObj [(''text'', JStr ''hello'')]) (JStr ''news/c.json'')
     = Inr (document_of [(''text'', JStr ''hello'')] (JStr ''news/c.json''))
   \<and> show_hit 1
       (hit_of (JStr ''news/c.json'')
          (document_of [(''text'', JStr ''hello'')] (JStr ''news/c.json'')))
     = ([[Lit ''Result #'', Val (JInt 1)],
         [Lit ''Score : '', Val (JFloat (Finite 3 (- 1)))],
         [Lit ''ID    : '', Val (JStr ''news/c.json'')],
         [Lit ''Title : '', Val JNull],
         [Lit (''Snippet:'' @ [CHR 0x0A]), Val (JStr ''hello'')],
         [Lit ''Author: '', Val JNull],
         [Lit ''Published: '', Val JNull],
         [Lit ''Language: '', Val JNull],
         [Lit ''URL: '', Val JNull],
         [Lit ''Categories: '', Val JNull],
         [Lit (replicate 70 (CHR ''-'') @ [CHR 0x0A])]],
        None)
   \<and> [Lit ''Title : '', Val JNull] \<noteq> [Lit ''Title : '', Val (JStr ''(no title)'')]"
  by (simp add: make_doc_obj show_hit_def hit_of_def document_of_def or_null_def item_line_def
      field_line_def snippet_line_def bind_err_def)

text \<open>
  C9: a result whose \<^verbatim>\<open>hits.total\<close> is a bare value (anything but an object: the number
  itself) and a result whose \<^verbatim>\<open>hits.total\<close> is an object carrying that value under
  \<^verbatim>\<open>value\<close> give the same total, and the presenter's first four lines are the same
  header for both, its third line showing that total.
\<close>

theorem total_in_either_form:
  assumes "hits_total r1 = Inr v" and "\<not> is_dict v"
    and "hits_total r2 = Inr (JObj tv)" and "map_of tv ''value'' = Some v"
  shows "total_hits r1 = Inr v \<and> total_hits r2 = Inr v
       \<and> take 4 (fst (display_search_results r1 q)) = header q v
       \<and> take 4 (fst (display_search_results r2 q)) = header q v
       \<and> header q v ! 2 = [Lit ''Total hits: '', Val v]"
  using assms
  by (simp add: total_hits_bare total_hits_object display_header hits_total_truthy header_def)

theorem total_in_either_form_witness:
  "total_hits (JObj [(''hits'', JObj [(''total'', JInt 5), (''hits'', JArr [])])]) = Inr (JInt 5)
   \<and> total_hits (JObj [(''hits'', JObj [(''total'', JObj [(''value'', JInt 5)]), (''hits'', JArr [])])])
       = Inr (JInt 5)
   \<and> fst (display_search_results
        (JObj [(''hits'', JObj [(''total'', JInt 5), (''hits'', JArr [])])]) ''q'') ! 2
       = [Lit ''Total hits: '', Val (JInt 5)]
   \<and> fst (display_search_results
        (JObj [(''hits'', JObj [(''total'', JObj [(''value'', JInt 5)]), (''hits'', JArr [])])]) ''q'') ! 2
       = [Lit ''Total hits: '', Val (JInt 5)]"
proof -
  let ?r1 = "JObj [(''hits'', JObj [(''total'', JInt 5), (''hits'', JArr [])])]"
  let ?r2 = "JObj [(''hits'', JObj [(''total'', JObj [(''value'', JInt 5)]), (''hits'', JArr [])])]"
  have 1: "hits_total ?r1 = Inr (JInt 5)" by (simp add: hits_total_def bind_err_def)
  have 2: "\<not> is_dict (JInt 5)" by simp
  have 3: "hits_total ?r2 = Inr (JObj [(''value'', JInt 5)])" by (simp add: hits_total_def bind_err_def)
  have 4: "map_of [(''value'', JInt 5)] ''value'' = Some (JInt 5)" by simp
  have n: "\<And>xs :: line list. take 4 xs ! 2 = xs ! 2" by simp
  from total_in_either_form [OF 1 2 3 4, of "''q''"] show ?thesis
    by (metis n)
qed

text \<open>
  C10: when a hit of a result has a source whose \<^verbatim>\<open>text\<close> key is mapped to null, the
  presenter ends with an exception. If the hit has a score and an id, its own run prints
  four lines (number, score, id, title) and then raises TypeError at the snippet; if
  the total is readable and the hits before it print without error, the report is the
  header, those hits' lines and these four lines, so neither the rest of this hit nor
  any later hit is printed. The extractor's document for a source object without a text
  is such a source.
\<close>

theorem null_text_raises:
  assumes "py_getitem sr ''hits'' = Inr h" and "py_getitem h ''hits'' = Inr (JArr hits)"
    and "hit \<in> set hits"
    and "py_getitem hit ''_source'' = Inr (JObj src)" and "map_of src ''text'' = Some JNull"
  shows "snd (display_search_results sr q) \<noteq> None
       \<and> (\<forall>i sc hid. py_getitem hit ''_score'' = Inr sc \<and> py_getitem hit ''_id'' = Inr hid \<longrightarrow>
            show_hit i hit =
              ([[Lit ''Result #'', Val (JInt i)],
                [Lit ''Score : '', Val sc],
                [Lit ''ID    : '', Val hid],
                [Lit ''Title : '',
                 Val (case map_of src ''title'' of None \<Rightarrow> JStr ''(no title)'' | Some v \<Rightarrow> v)]],
               Some TypeError))
       \<and> (\<forall>pre post tot ls.
            hits = pre @ hit # post \<and> total_hits sr = Inr tot \<and> show_hits 1 pre = (ls, None) \<longrightarrow>
            display_search_results sr q =
              (header q tot @ ls @ fst (show_hit (1 + int (length pre)) hit),
               snd (show_hit (1 + int (length pre)) hit)))
       \<and> (\<forall>kvs doc_id. map_of kvs ''text'' = None \<longrightarrow>
            (\<exists>d. make_doc (JObj kvs) doc_id = Inr (JObj d) \<and> map_of d ''text'' = Some JNull))"
proof -
  have r: "\<And>i. snd (show_hit i hit) \<noteq> None"
    using assms(4,5) by (rule show_hit_null_text_raises)
  have 1: "snd (display_search_results sr q) \<noteq> None"
    using assms(1,2,3) r by (rule display_raises)
  have 2: "\<And>i sc hid. py_getitem hit ''_score'' = Inr sc \<Longrightarrow> py_getitem hit ''_id'' = Inr hid \<Longrightarrow>
      show_hit i hit =
        ([[Lit ''Result #'', Val (JInt i)],
          [Lit ''Score : '', Val sc],
          [Lit ''ID    : '', Val hid],
          [Lit ''Title : '',
           Val (case map_of src ''title'' of None \<Rightarrow> JStr ''(no title)'' | Some v \<Rightarrow> v)]],
         Some TypeError)"
    using assms(4,5) by (intro show_hit_null_text)
  have 3: "\<And>pre post tot ls. hits = pre @ hit # post \<Longrightarrow> total_hits sr = Inr tot \<Longrightarrow>
      show_hits 1 pre = (ls, None) \<Longrightarrow>
      display_search_results sr q =
        (header q tot @ ls @ fst (show_hit (1 + int (length pre)) hit),
         snd (show_hit (1 + int (length pre)) hit))"
    using assms(1,2) r by (intro display_at_hit) simp_all
  have 4: "\<And>kvs doc_id. map_of kvs ''text'' = None \<Longrightarrow>
      (\<exists>d. make_doc (JObj kvs) doc_id = Inr (JObj d) \<and> map_of d ''text'' = Some JNull)"
    by (simp add: make_doc_obj document_of_def or_null_def)
  from 1 2 3 4 show ?thesis
    by blast
qed

theorem null_text_raises_witness:
  "snd (display_search_results
          (result_of (JObj [(''value'', JInt 3)])
             [hit_of (JStr ''u7'')
                (document_of [(''uuid'', JStr ''u7''), (''text'', JStr ''hello'')] (JStr ''u7'')),
              hit_of (JStr ''news/c.json'')
                (document_of [(''title'', JStr ''x'')] (JStr ''news/c.json'')),
              hit_of (JStr ''u9'')
                (document_of [(''uuid'', JStr ''u9''), (''text'', JStr ''bye'')] (JStr ''u9''))])
          ''hello'')
     = Some TypeError
   \<and> length (fst (display_search_results
          (result_of (JObj [(''value'', JInt 3)])
             [hit_of (JStr ''u7'')
                (document_of [(''uuid'', JStr ''u7''), (''text'', JStr ''hello'')] (JStr ''u7'')),
              hit_of (JStr ''news/c.json'')
                (document_of [(''title'', JStr ''x'')] (JStr ''news/c.json'')),
              hit_of (JStr ''u9'')
                (document_of [(''uuid'', JStr ''u9''), (''text'', JStr ''bye'')] (JStr ''u9''))])
          ''hello'')) = 4 + 11 + 4
   \<and> last (fst (display_search_results
          (result_of (JObj [(''value'', JInt 3)])
             [hit_of (JStr ''u7'')
                (document_of [(''uuid'', JStr ''u7''), (''text'', JStr ''hello'')] (JStr ''u7'')),
              hit_of (JStr ''news/c.json'')
                (document_of [(''title'', JStr ''x'')] (JStr ''news/c.json'')),
              hit_of (JStr ''u9'')
                (document_of [(''uuid'', JStr ''u9''), (''text'', JStr ''bye'')] (JStr ''u9''))])
          ''hello'')) = [Lit ''Title : '', Val (JStr ''x'')]"
proof -
  let ?h1 = "hit_of (JStr ''u7'')
      (document_of [(''uuid'', JStr ''u7''), (''text'', JStr ''hello'')] (JStr ''u7''))"
  let ?src = "document_of [(''title'', JStr ''x'')] (JStr ''news/c.json'')"
  let ?h2 = "hit_of (JStr ''news/c.json'') ?src"
  let ?h3 = "hit_of (JStr ''u9'')
      (document_of [(''uuid'', JStr ''u9''), (''text'', JStr ''bye'')] (JStr ''u9''))"
  let ?sr = "result_of (JObj [(''value'', JInt 3)]) [?h1, ?h2, ?h3]"
  let ?d = "[(''uuid'', JStr ''news/c.json''), (''title'', JStr ''x''), (''text'', JNull),
             (''author'', JNull), (''published'', JNull), (''language'', JNull),
             (''sentiment'', JNull), (''categories'', JNull), (''url'', JNull)]"
  have 1: "py_getitem ?sr ''hits'' =
      Inr (JObj [(''total'', JObj [(''value'', JInt 3)]), (''hits'', JArr [?h1, ?h2, ?h3])])"
    by (simp add: result_of_def)
  have 2: "py_getitem (JObj [(''total'', JObj [(''value'', JInt 3)]), (''hits'', JArr [?h1, ?h2, ?h3])])
      ''hits'' = Inr (JArr [?h1, ?h2, ?h3])"
    by simp
  have 3: "?h2 \<in> set [?h1, ?h2, ?h3]"
    by simp
  have 4: "py_getitem ?h2 ''_source'' = Inr (JObj ?d)"
    by (simp add: hit_of_def document_of_def or_null_def)
  have 5: "map_of ?d ''text'' = Some JNull"
    by simp
  have tot: "total_hits ?sr = Inr (JInt 3)"
    by (simp add: total_hits_def hits_total_def result_of_def bind_err_def)
  have h1: "show_hits 1 [?h1] = (fst (show_hit 1 ?h1), None)"
    by (simp add: show_hit_def hit_of_def document_of_def or_null_def item_line_def
        field_line_def snippet_line_def bind_err_def)
  have l1: "length (fst (show_hit 1 ?h1)) = 11"
    by (simp add: show_hit_def hit_of_def document_of_def or_null_def item_line_def
        field_line_def snippet_line_def bind_err_def)
  have sc: "py_getitem ?h2 ''_score'' = Inr (JFloat (Finite 3 (- 1)))"
    and hid: "py_getitem ?h2 ''_id'' = Inr (JStr ''news/c.json'')"
    by (simp_all add: hit_of_def)
  note t = null_text_raises [OF 1 2 3 4 5, of "''hello''"]
  from t sc hid have s2: "show_hit 2 ?h2 =
      ([[Lit ''Result #'', Val (JInt 2)],
        [Lit ''Score : '', Val (JFloat (Finite 3 (- 1)))],
        [Lit ''ID    : '', Val (JStr ''news/c.json'')],
        [Lit ''Title : '', Val (JStr ''x'')]],
       Some TypeError)"
    by simp
  from t tot h1 have "display_search_results ?sr ''hello'' =
      (header ''hello'' (JInt 3) @ fst (show_hit 1 ?h1) @ fst (show_hit (1 + int (length [?h1])) ?h2),
       snd (show_hit (1 + int (length [?h1])) ?h2))"
    by (metis append_Cons append_Nil)
  with s2 l1 show ?thesis
    by (simp add: length_header)
qed

end
